theory Spec2Isabelle
  imports Main
begin

section \<open>JavaScript values\<close>

text \<open>
  The values that travel through the bridge are plain data: \<open>undefined\<close>, \<open>null\<close>,
  booleans, numbers, strings, plain objects and arrays. A plain object is the list of its
  own enumerable properties in the order \<open>Object.keys\<close> reports them; they are writable
  data properties, and the object accepts new ones. An array is the list of its elements
  (\<open>None\<close> is a hole) together with the named properties it may also carry. A string is
  the list of its code units, and numbers are carried without being computed with.
  Values are trees: two properties never share one mutable object, so an in-place
  assignment is the replacement of a subtree.

  Beside the data stand the values that belong to the environment: a function (\<open>Func\<close>),
  and a built-in object that is not a function, such as a prototype object (\<open>Builtin\<close>).
  Each is known by a number, and neither has an enumerable own property.
\<close>

datatype jsval =
    Undefined
  | Null
  | Bool bool
  | Num int
  | Str string
  | Obj "(string \<times> jsval) list"
  | Arr "jsval option list" "(string \<times> jsval) list"
  | Func nat
  | Builtin nat

datatype codec_error = TypeError | RangeError | OtherError

type_synonym js_record = "(string \<times> jsval) list"

definition isDigit :: "char \<Rightarrow> bool" where
  "isDigit c = (c \<in> set ''0123456789'')"

text \<open>The regular expression \<open>/^\d+$/\<close>: one or more decimal digits.\<close>

definition isDigits :: "string \<Rightarrow> bool" where
  "isDigits s = (s \<noteq> [] \<and> list_all isDigit s)"

definition digitVal :: "char \<Rightarrow> nat" where
  "digitVal c = of_char c - 48"

definition decimal :: "string \<Rightarrow> nat" where
  "decimal s = foldl (\<lambda>n c. 10 * n + digitVal c) 0 s"

text \<open>
  An array index is a canonical decimal numeral below \<open>2^32 - 1\<close>; \<open>''007''\<close> is an
  ordinary property name.
\<close>

definition isArrayIndex :: "string \<Rightarrow> bool" where
  "isArrayIndex k = (isDigits k \<and> (k = ''0'' \<or> hd k \<noteq> CHR ''0'') \<and> decimal k < 4294967295)"

fun lookupOwn :: "js_record \<Rightarrow> string \<Rightarrow> jsval" where
  "lookupOwn [] k = Undefined"
| "lookupOwn ((k', v) # ps) k = (if k' = k then v else lookupOwn ps k)"

fun hasOwn :: "js_record \<Rightarrow> string \<Rightarrow> bool" where
  "hasOwn [] k = False"
| "hasOwn ((k', v) # ps) k = (k' = k \<or> hasOwn ps k)"

fun replaceOwn :: "js_record \<Rightarrow> string \<Rightarrow> jsval \<Rightarrow> js_record" where
  "replaceOwn [] k v = []"
| "replaceOwn ((k', v') # ps) k v = (if k' = k then (k, v) # ps else (k', v') # replaceOwn ps k v)"

text \<open>
  A new property is enumerated after the existing ones, except that array-index keys come
  first, in ascending order.
\<close>

fun insertOwn :: "js_record \<Rightarrow> string \<Rightarrow> jsval \<Rightarrow> js_record" where
  "insertOwn [] k v = [(k, v)]"
| "insertOwn ((k', v') # ps) k v =
     (if isArrayIndex k \<and> (\<not> isArrayIndex k' \<or> decimal k < decimal k')
      then (k, v) # (k', v') # ps
      else (k', v') # insertOwn ps k v)"

definition setOwn :: "js_record \<Rightarrow> string \<Rightarrow> jsval \<Rightarrow> js_record" where
  "setOwn ps k v = (if hasOwn ps k then replaceOwn ps k v else insertOwn ps k v)"

subsection \<open>Own properties\<close>

text \<open>
  The properties a value has itself: those of an object; the elements that are not
  holes, the \<open>length\<close> and the named properties of an array; the \<open>length\<close> and the code
  units of a string.
\<close>

fun ownKey :: "jsval \<Rightarrow> string \<Rightarrow> bool" where
  "ownKey (Obj ps) k = hasOwn ps k"
| "ownKey (Arr es named) k =
     (if isArrayIndex k then decimal k < length es \<and> es ! decimal k \<noteq> None
      else k = ''length'' \<or> hasOwn named k)"
| "ownKey (Str s) k = (k = ''length'' \<or> (isArrayIndex k \<and> decimal k < length s))"
| "ownKey v k = False"

fun ownValue :: "jsval \<Rightarrow> string \<Rightarrow> jsval" where
  "ownValue (Obj ps) k = lookupOwn ps k"
| "ownValue (Arr es named) k =
     (if isArrayIndex k then (case es ! decimal k of None \<Rightarrow> Undefined | Some v \<Rightarrow> v)
      else if k = ''length'' then Num (int (length es))
      else lookupOwn named k)"
| "ownValue (Str s) k = (if k = ''length'' then Num (int (length s)) else Str [s ! decimal k])"
| "ownValue v k = Undefined"

fun isForeign :: "jsval \<Rightarrow> bool" where
  "isForeign (Func f) = True"
| "isForeign (Builtin b) = True"
| "isForeign v = False"

subsection \<open>The environment\<close>

text \<open>
  A property that a value does not have itself is looked for on its prototype chain, and
  the properties of a function or of a built-in object are the environment's altogether.
  What the environment holds is not in the source; it is the parameter \<open>R\<close>, a realm, over
  states \<open>'e\<close> of the built-in objects.

  \<^item> \<open>chainGet R e base k\<close> is what \<open>base[k]\<close> answers for a data value \<open>base\<close> without own
    property \<open>k\<close>: \<open>undefined\<close> when no object of the chain has a member \<open>k\<close>, the member
    otherwise (for an accessor what its getter returns or throws).

  \<^item> \<open>chainSet R e base k v\<close> is what the chain does to the write \<open>base[k] = v\<close> on a data
    value without own property \<open>k\<close>. \<open>NoObstacle\<close>: the chain has no member \<open>k\<close>, or a
    writable data member; the write then reaches the value itself. \<open>Throws\<close>: the member
    is read-only or an accessor without setter, or its setter throws. \<open>Taken e'\<close>: a
    setter took the write, as the \<open>__proto__\<close> accessor does; the value keeps its own
    properties and the environment is left in \<open>e'\<close>.

  \<^item> \<open>foreignGet\<close> and \<open>foreignSet\<close> read and write a property of a function or a
    built-in object; the write leaves a new state of the environment.

  \<^item> \<open>toLength\<close> is the coercion of the value written to the \<open>length\<close> of an array, with
    \<open>None\<close> where the language throws a RangeError.
\<close>

datatype 'e chainWrite = NoObstacle | Throws codec_error | Taken 'e

record 'e Realm =
  chainGet :: "'e \<Rightarrow> jsval \<Rightarrow> string \<Rightarrow> codec_error + jsval"
  chainSet :: "'e \<Rightarrow> jsval \<Rightarrow> string \<Rightarrow> jsval \<Rightarrow> 'e chainWrite"
  foreignGet :: "'e \<Rightarrow> jsval \<Rightarrow> string \<Rightarrow> codec_error + jsval"
  foreignSet :: "'e \<Rightarrow> jsval \<Rightarrow> string \<Rightarrow> jsval \<Rightarrow> codec_error + 'e"
  toLength :: "jsval \<Rightarrow> nat option"

text \<open>
  Reading \<open>base[key]\<close>. \<open>null\<close> and \<open>undefined\<close> refuse to be indexed; an own property
  answers first, then the prototype chain.
\<close>

definition getProp :: "'e Realm \<Rightarrow> 'e \<Rightarrow> jsval \<Rightarrow> string \<Rightarrow> codec_error + jsval" where
  "getProp R e base k =
     (if base = Undefined \<or> base = Null then Inl TypeError
      else if isForeign base then foreignGet R e base k
      else if ownKey base k then Inr (ownValue base k)
      else chainGet R e base k)"

section \<open>Path utilities\<close>

subsection \<open>parsePath\<close>

text \<open>
  The loop of \<open>parsePath\<close> runs over the characters with four variables: \<open>result\<close>,
  \<open>current\<close>, \<open>inBracket\<close> and \<open>bracketQuote\<close>. One turn of the loop:
\<close>

type_synonym parseState = "string list \<times> string \<times> bool \<times> char option"

fun parseStep :: "parseState \<Rightarrow> char \<Rightarrow> parseState" where
  "parseStep (result, current, inBracket, bracketQuote) c =
     (if inBracket then
        (case bracketQuote of
           Some q \<Rightarrow>
             (if c = q then (result, current, inBracket, None)
              else (result, current @ [c], inBracket, bracketQuote))
         | None \<Rightarrow>
             (if c = CHR '']'' then
                (if current \<noteq> [] then (result @ [current], [], False, bracketQuote)
                 else (result, current, False, bracketQuote))
              else if c = CHR 0x22 \<or> c = CHR 0x27 then (result, current, inBracket, Some c)
              else (result, current @ [c], inBracket, bracketQuote)))
      else
        (if c = CHR ''.'' then
           (if current \<noteq> [] then (result @ [current], [], inBracket, bracketQuote)
            else (result, current, inBracket, bracketQuote))
         else if c = CHR ''['' then
           (if current \<noteq> [] then (result @ [current], [], True, bracketQuote)
            else (result, current, True, bracketQuote))
         else (result, current @ [c], inBracket, bracketQuote)))"

fun parseEnd :: "parseState \<Rightarrow> string list" where
  "parseEnd (result, current, inBracket, bracketQuote) =
     (if current \<noteq> [] then result @ [current] else result)"

definition parsePath :: "string \<Rightarrow> string list" where
  "parsePath path =
     (if path = [] then [] else parseEnd (foldl parseStep ([], [], False, None) path))"

subsection \<open>getNestedValue\<close>

fun getNestedValue :: "'e Realm \<Rightarrow> 'e \<Rightarrow> jsval \<Rightarrow> string list \<Rightarrow> codec_error + jsval" where
  "getNestedValue R e current [] = Inr current"
| "getNestedValue R e current (segment # rest) =
     (if current = Null \<or> current = Undefined then Inr Undefined
      else (case getProp R e current segment of
              Inl x \<Rightarrow> Inl x
            | Inr v \<Rightarrow> getNestedValue R e v rest))"

subsection \<open>setNestedValue\<close>

definition setElem :: "jsval option list \<Rightarrow> nat \<Rightarrow> jsval \<Rightarrow> jsval option list" where
  "setElem es i v =
     (if i < length es then es[i := Some v]
      else es @ replicate (i - length es) None @ [Some v])"

definition resize :: "jsval option list \<Rightarrow> nat \<Rightarrow> jsval option list" where
  "resize es n = (if n \<le> length es then take n es else es @ replicate (n - length es) None)"

text \<open>
  The write that reaches the value itself: an object or an array gets or replaces an own
  property. The module is strict-mode code, so on a primitive the write throws: the own
  properties of a string are read-only, and a primitive takes no new property.
\<close>

fun defineOwn :: "'e Realm \<Rightarrow> jsval \<Rightarrow> string \<Rightarrow> jsval \<Rightarrow> codec_error + jsval" where
  "defineOwn R (Obj ps) k v = Inr (Obj (setOwn ps k v))"
| "defineOwn R (Arr es named) k v =
     (if isArrayIndex k then Inr (Arr (setElem es (decimal k) v) named)
      else if k = ''length'' then
        (case toLength R v of
           None \<Rightarrow> Inl RangeError
         | Some n \<Rightarrow> Inr (Arr (resize es n) named))
      else Inr (Arr es (setOwn named k v)))"
| "defineOwn R base k v = Inl TypeError"

text \<open>
  Writing \<open>base[key] = value\<close>; the result is the value after the write and the state of
  the environment. A write to an own property reaches the value; any other write goes by
  the prototype chain first.
\<close>

definition setProp :: "'e Realm \<Rightarrow> 'e \<Rightarrow> jsval \<Rightarrow> string \<Rightarrow> jsval \<Rightarrow> codec_error + jsval \<times> 'e" where
  "setProp R e base k v =
     (if base = Undefined \<or> base = Null then Inl TypeError
      else if isForeign base then
        (case foreignSet R e base k v of
           Inl x \<Rightarrow> Inl x
         | Inr e' \<Rightarrow> Inr (base, e'))
      else if ownKey base k then
        (case defineOwn R base k v of
           Inl x \<Rightarrow> Inl x
         | Inr base' \<Rightarrow> Inr (base', e))
      else
        (case chainSet R e base k v of
           NoObstacle \<Rightarrow>
             (case defineOwn R base k v of
                Inl x \<Rightarrow> Inl x
              | Inr base' \<Rightarrow> Inr (base', e))
         | Throws x \<Rightarrow> Inl x
         | Taken e' \<Rightarrow> Inr (base, e')))"

text \<open>
  The loop of \<open>setNestedValue\<close> moves \<open>current\<close> down into the object it has just read
  or created and mutates it there. On trees this is: compute the new child, then put it
  back under the key it was read from, when it was read from an own property. A child
  that came from the prototype chain is not part of the value.
\<close>

fun storeBack :: "jsval \<Rightarrow> string \<Rightarrow> jsval \<Rightarrow> jsval" where
  "storeBack (Obj ps) k child = Obj (replaceOwn ps k child)"
| "storeBack (Arr es named) k child =
     (if isArrayIndex k then Arr (es[decimal k := Some child]) named
      else if k = ''length'' then Arr es named
      else Arr es (replaceOwn named k child))"
| "storeBack base k child = base"

definition putBack :: "jsval \<Rightarrow> string \<Rightarrow> jsval \<Rightarrow> jsval" where
  "putBack base k child = (if ownKey base k then storeBack base k child else base)"

fun setWalk :: "'e Realm \<Rightarrow> 'e \<Rightarrow> jsval \<Rightarrow> string list \<Rightarrow> jsval \<Rightarrow> codec_error + jsval \<times> 'e" where
  "setWalk R e current [] v = Inr (current, e)"
| "setWalk R e current [lastSegment] v = setProp R e current lastSegment v"
| "setWalk R e current (segment # nextSegment # rest) v =
     (case getProp R e current segment of
        Inl x \<Rightarrow> Inl x
      | Inr child \<Rightarrow>
          (if child = Undefined \<or> child = Null then
             (case setProp R e current segment
                     (if isDigits nextSegment then Arr [] [] else Obj []) of
                Inl x \<Rightarrow> Inl x
              | Inr (current', e1) \<Rightarrow>
                  (case getProp R e1 current' segment of
                     Inl x \<Rightarrow> Inl x
                   | Inr created \<Rightarrow>
                       (case setWalk R e1 created (nextSegment # rest) v of
                          Inl x \<Rightarrow> Inl x
                        | Inr (child', e2) \<Rightarrow> Inr (putBack current' segment child', e2))))
           else
             (case setWalk R e child (nextSegment # rest) v of
                Inl x \<Rightarrow> Inl x
              | Inr (child', e2) \<Rightarrow> Inr (putBack current segment child', e2))))"

text \<open>
  The result is the object after the call and the state of the environment; \<open>Inl\<close> is
  the exception thrown.
\<close>

definition setNestedValue :: "'e Realm \<Rightarrow> 'e \<Rightarrow> jsval \<Rightarrow> string list \<Rightarrow> jsval \<Rightarrow> codec_error + jsval \<times> 'e" where
  "setNestedValue R e obj segments v =
     (if length segments = 0 then Inr (obj, e) else setWalk R e obj segments v)"

subsection \<open>The vanilla store\<close>

record VanillaStore =
  data :: jsval
  state :: jsval

definition getValueByPath :: "'e Realm \<Rightarrow> 'e \<Rightarrow> VanillaStore \<Rightarrow> string \<Rightarrow> codec_error + jsval" where
  "getValueByPath R e store path =
     (let segments = parsePath path in
      if length segments = 0 then Inr Undefined
      else
        (let namespace = hd segments; restSegments = tl segments in
         if namespace = ''data'' then getNestedValue R e (data store) restSegments
         else if namespace = ''state'' then getNestedValue R e (state store) restSegments
         else Inr Undefined))"

definition setValueByPath :: "'e Realm \<Rightarrow> 'e \<Rightarrow> VanillaStore \<Rightarrow> string \<Rightarrow> jsval \<Rightarrow> codec_error + VanillaStore \<times> 'e" where
  "setValueByPath R e store path v =
     (let segments = parsePath path in
      if length segments < 2 then Inr (store, e)
      else
        (let namespace = hd segments; restSegments = tl segments in
         if namespace = ''data'' then
           (case setNestedValue R e (data store) restSegments v of
              Inl x \<Rightarrow> Inl x
            | Inr (d, e') \<Rightarrow> Inr (store\<lparr>data := d\<rparr>, e'))
         else if namespace = ''state'' then
           (case setNestedValue R e (state store) restSegments v of
              Inl x \<Rightarrow> Inl x
            | Inr (s, e') \<Rightarrow> Inr (store\<lparr>state := s\<rparr>, e'))
         else Inr (store, e)))"

subsection \<open>flattenObject\<close>

text \<open>\<open>value !== null && typeof value === 'object' && !Array.isArray(value)\<close>\<close>

fun isObjectNotArray :: "jsval \<Rightarrow> bool" where
  "isObjectNotArray (Obj ps) = True"
| "isObjectNotArray (Builtin b) = True"
| "isObjectNotArray v = False"

text \<open>
  \<open>result[key] = value\<close> on the record that \<open>flattenObject\<close> builds: an assignment as any
  other, so a key that the record does not have goes by the prototype chain.
\<close>

definition recordSet :: "'e Realm \<Rightarrow> 'e \<Rightarrow> js_record \<Rightarrow> string \<Rightarrow> jsval \<Rightarrow> codec_error + js_record \<times> 'e" where
  "recordSet R e result k v =
     (if hasOwn result k then Inr (replaceOwn result k v, e)
      else
        (case chainSet R e (Obj result) k v of
           NoObstacle \<Rightarrow> Inr (insertOwn result k v, e)
         | Throws x \<Rightarrow> Inl x
         | Taken e' \<Rightarrow> Inr (result, e')))"

text \<open>\<open>Object.assign(target, source)\<close>: one assignment per property of the source.\<close>

fun objectAssign :: "'e Realm \<Rightarrow> 'e \<Rightarrow> js_record \<Rightarrow> js_record \<Rightarrow> codec_error + js_record \<times> 'e" where
  "objectAssign R e target [] = Inr (target, e)"
| "objectAssign R e target ((k, v) # src) =
     (case recordSet R e target k v of
        Inl x \<Rightarrow> Inl x
      | Inr (target', e') \<Rightarrow> objectAssign R e' target' src)"

text \<open>
  A function is not of type \<open>object\<close> and is stored whole. A built-in object is, and is
  not an array: its entries are enumerated, and it has none.
\<close>

fun flattenObject :: "'e Realm \<Rightarrow> 'e \<Rightarrow> jsval \<Rightarrow> string \<Rightarrow> codec_error + js_record \<times> 'e"
  and flattenEntries :: "'e Realm \<Rightarrow> 'e \<Rightarrow> js_record \<Rightarrow> string \<Rightarrow> js_record \<Rightarrow> codec_error + js_record \<times> 'e" where
  "flattenObject R e Undefined prefix = Inr ([], e)"
| "flattenObject R e Null prefix = Inr ([], e)"
| "flattenObject R e (Bool b) prefix = recordSet R e [] prefix (Bool b)"
| "flattenObject R e (Num n) prefix = recordSet R e [] prefix (Num n)"
| "flattenObject R e (Str s) prefix = recordSet R e [] prefix (Str s)"
| "flattenObject R e (Func f) prefix = recordSet R e [] prefix (Func f)"
| "flattenObject R e (Arr es named) prefix = recordSet R e [] prefix (Arr es named)"
| "flattenObject R e (Builtin b) prefix = Inr ([], e)"
| "flattenObject R e (Obj ps) prefix = flattenEntries R e ps prefix []"
| "flattenEntries R e [] prefix result = Inr (result, e)"
| "flattenEntries R e ((key, v) # rest) prefix result =
     (let fullPath = prefix @ ''.'' @ key in
      (case (if isObjectNotArray v then
               (case flattenObject R e v fullPath of
                  Inl x \<Rightarrow> Inl x
                | Inr (sub, e1) \<Rightarrow> objectAssign R e1 result sub)
             else recordSet R e result fullPath v) of
         Inl x \<Rightarrow> Inl x
       | Inr (result', e') \<Rightarrow> flattenEntries R e' rest prefix result'))"

subsection \<open>Notions used to state the properties of the path utilities\<close>

text \<open>Objects and arrays are the values a property can be written to.\<close>

fun isContainer :: "jsval \<Rightarrow> bool" where
  "isContainer (Obj ps) = True"
| "isContainer (Arr es named) = True"
| "isContainer v = False"




text \<open>The first segment of a path, its namespace; a path without segments has none.\<close>

definition firstSegment :: "string \<Rightarrow> string option" where
  "firstSegment path = (case parsePath path of [] \<Rightarrow> None | s # rest \<Rightarrow> Some s)"



subsection \<open>An environment for the examples\<close>

text \<open>
  The length coercion on numbers: a number in range is its own length. None of the
  examples writes the length of an array.
\<close>

definition numberToLength :: "jsval \<Rightarrow> nat option" where
  "numberToLength v =
     (case v of
        Num n \<Rightarrow> (if 0 \<le> n \<and> n < 4294967296 then Some (nat n) else None)
      | _ \<Rightarrow> None)"

text \<open>
  A small realm. Every data value inherits two members: \<open>constructor\<close>, the function
  numbered by the kind of the value, and the \<open>__proto__\<close> accessor, which answers with
  the prototype object of that kind and whose setter takes every write and leaves the
  data as it is. A function has the read-only property \<open>name\<close>. The state of this realm
  is the list of the properties that have been written to functions and built-in objects,
  the latest first; a data value inherits what has been written to the prototype object
  of its kind or to that of objects. The realm keeps one chain per kind of value: the
  examples write no object to \<open>__proto__\<close>, which would replace the chain of one value.
\<close>

fun kindOf :: "jsval \<Rightarrow> nat" where
  "kindOf (Arr es named) = 1"
| "kindOf (Str s) = 2"
| "kindOf (Num n) = 3"
| "kindOf (Bool b) = 4"
| "kindOf v = 0"

definition constructorName :: "nat \<Rightarrow> string" where
  "constructorName f =
     (if f = 0 then ''Object'' else if f = 1 then ''Array'' else if f = 2 then ''String''
      else if f = 3 then ''Number'' else if f = 4 then ''Boolean'' else [])"

fun isFunc :: "jsval \<Rightarrow> bool" where
  "isFunc (Func f) = True"
| "isFunc v = False"

fun funcName :: "jsval \<Rightarrow> string" where
  "funcName (Func f) = constructorName f"
| "funcName v = []"

type_synonym sampleEnv = "((jsval \<times> string) \<times> jsval) list"

definition sampleRealm :: "sampleEnv Realm" where
  "sampleRealm =
     \<lparr>chainGet = (\<lambda>e base k.
         Inr (if k = ''constructor'' then Func (kindOf base)
              else if k = ''__proto__'' then Builtin (kindOf base)
              else (case map_of e (Builtin (kindOf base), k) of
                      Some v \<Rightarrow> v
                    | None \<Rightarrow> (case map_of e (Builtin 0, k) of Some v \<Rightarrow> v | None \<Rightarrow> Undefined)))),
      chainSet = (\<lambda>e base k v. if k = ''__proto__'' then Taken e else NoObstacle),
      foreignGet = (\<lambda>e base k.
         Inr (case map_of e (base, k) of
                Some v \<Rightarrow> v
              | None \<Rightarrow> (if isFunc base \<and> k = ''name'' then Str (funcName base)
                         else Undefined))),
      foreignSet = (\<lambda>e base k v.
         if isFunc base \<and> k = ''name'' then Inl TypeError else Inr (((base, k), v) # e)),
      toLength = numberToLength\<rparr>"


section \<open>The bridge\<close>

text \<open>
  The bridge sits between three collaborators that it knows through their interfaces:
  the domain runtime, the external store behind an adapter and an actuator, and the
  host's timers. Each is modelled by what the bridge can observe of it. The runtime
  is a state of some type \<open>'r\<close> with the operations the bridge calls; the adapter is the
  answers it gives; a call to the actuator is an entry in a log; a timer is an entry in
  the host's queue, with a clock counted in milliseconds. The collaborators answer and
  return; what they do behind a call is not the bridge's and does not come back into
  the call that is running.
\<close>

type_synonym SemanticPath = string

text \<open>A thrown value: an \<open>Error\<close> with its message, or some other value with its \<open>String(...)\<close>.\<close>

datatype thrown = Error string | NonError string

datatype ('a, 'e) Result = Ok 'a | Err 'e

datatype 'a promise = Fulfilled 'a | Rejected thrown | Pending

subsection \<open>Types of the interface\<close>

datatype BridgeErrorCode =
  VALIDATION_ERROR | EXECUTION_ERROR | SYNC_ERROR | ADAPTER_ERROR | DISPOSED_ERROR

record BridgeError =
  error_code :: BridgeErrorCode
  error_message :: string
  error_path :: "SemanticPath option"
  error_cause :: "thrown option"

definition bridgeError :: "BridgeErrorCode \<Rightarrow> string \<Rightarrow> SemanticPath option \<Rightarrow> thrown option \<Rightarrow> BridgeError" where
  "bridgeError c m p e = \<lparr>error_code = c, error_message = m, error_path = p, error_cause = e\<rparr>"

text \<open>
  The three commands, and \<open>OtherCommand\<close> for a value with an unknown \<open>type\<close> tag that an
  untyped caller may pass.
\<close>

datatype Command =
    SET_VALUE SemanticPath jsval
  | SET_MANY js_record
  | EXECUTE_ACTION string jsval
  | OtherCommand string

datatype SyncMode = push | pull | bidirectional

record DomainSnapshot =
  snapshot_data :: jsval
  snapshot_state :: jsval

record ValidationError =
  validation_message :: string
  validation_path :: "SemanticPath option"

record Precondition =
  precondition_path :: SemanticPath
  satisfied :: bool

text \<open>
  The runtime's operations, on its state. A write returns the runtime's answer, or what it
  threw, and the state it is left in; \<open>execute\<close> returns a promise, whose failure carries
  the message of its cause.
\<close>

record ('r, 'p) DomainRuntime =
  runtime_get :: "'r \<Rightarrow> SemanticPath \<Rightarrow> jsval"
  runtime_set :: "'r \<Rightarrow> SemanticPath \<Rightarrow> jsval \<Rightarrow> (thrown + (unit, ValidationError) Result) \<times> 'r"
  runtime_setMany :: "'r \<Rightarrow> js_record \<Rightarrow> (thrown + (unit, ValidationError) Result) \<times> 'r"
  runtime_execute :: "'r \<Rightarrow> string \<Rightarrow> jsval \<Rightarrow> (thrown + (unit, string) Result promise) \<times> 'r"
  runtime_getSnapshot :: "'r \<Rightarrow> DomainSnapshot"
  runtime_getFieldPolicy :: "'r \<Rightarrow> SemanticPath \<Rightarrow> 'p"
  runtime_getPreconditions :: "'r \<Rightarrow> string \<Rightarrow> Precondition list"

record Adapter =
  getData :: "SemanticPath \<Rightarrow> jsval"
  getState :: "SemanticPath \<Rightarrow> jsval"
  hasSubscribe :: bool
  captureData :: js_record
  captureState :: js_record

text \<open>Of the actuator the bridge asks only which of the optional batch methods it has.\<close>

record Actuator =
  hasSetManyData :: bool
  hasSetManyState :: bool

datatype ActuatorCall =
    SetData SemanticPath jsval
  | SetState SemanticPath jsval
  | SetManyData js_record
  | SetManyState js_record

record ('r, 'p) BridgeConfig =
  runtime :: "('r, 'p) DomainRuntime"
  adapter :: Adapter
  actuator :: Actuator
  syncMode :: "SyncMode option"
  autoSync :: "bool option"
  debounceMs :: "int option"

definition syncModeOf :: "('r, 'p) BridgeConfig \<Rightarrow> SyncMode" where
  "syncModeOf config = (case syncMode config of None \<Rightarrow> bidirectional | Some m \<Rightarrow> m)"

definition autoSyncOf :: "('r, 'p) BridgeConfig \<Rightarrow> bool" where
  "autoSyncOf config = (case autoSync config of None \<Rightarrow> True | Some b \<Rightarrow> b)"

definition debounceMsOf :: "('r, 'p) BridgeConfig \<Rightarrow> int" where
  "debounceMsOf config = (case debounceMs config of None \<Rightarrow> 0 | Some d \<Rightarrow> d)"

subsection \<open>The state of a bridge and of its surroundings\<close>

text \<open>
  The first six fields are the variables of the closure that \<open>createBridge\<close> returns
  (a listener is a number; an unsubscribe function is there or not). Then come the host's
  clock and timer queue (handle and due time), the state of the runtime, and two logs:
  every run of \<open>pushToExternal\<close> with its time and its actuator calls, and every
  snapshot handed to a listener.
\<close>

record 'r World =
  isDisposed :: bool
  syncTimeoutId :: "nat option"
  pendingPaths :: "SemanticPath list"
  listeners :: "nat list"
  adapterUnsubscribe :: bool
  runtimeUnsubscribe :: bool
  clock :: nat
  timers :: "(nat \<times> nat) list"
  nextTimer :: nat
  runtimeState :: 'r
  pushed :: "(nat \<times> ActuatorCall list) list"
  notified :: "(nat \<times> DomainSnapshot \<times> SemanticPath list) list"

text \<open>
  The host keeps a delay of 1 to \<open>2^31 - 1\<close> milliseconds and turns every other delay
  into 1 millisecond.
\<close>

definition hostDelay :: "int \<Rightarrow> nat" where
  "hostDelay ms = (if ms < 1 \<or> 2147483647 < ms then 1 else nat ms)"

definition setTimeout :: "int \<Rightarrow> 'r World \<Rightarrow> nat \<times> 'r World" where
  "setTimeout delay w =
     (nextTimer w,
      w\<lparr>timers := timers w @ [(nextTimer w, clock w + hostDelay delay)],
        nextTimer := Suc (nextTimer w)\<rparr>)"

definition clearTimeout :: "nat \<Rightarrow> 'r World \<Rightarrow> 'r World" where
  "clearTimeout handle w = w\<lparr>timers := filter (\<lambda>(i, due). i \<noteq> handle) (timers w)\<rparr>"

definition startsWith :: "string \<Rightarrow> string \<Rightarrow> bool" where
  "startsWith s pre = (take (length pre) s = pre)"

text \<open>\<open>Set.prototype.add\<close>: a set keeps the order of first insertion.\<close>

definition setAdd :: "'a list \<Rightarrow> 'a \<Rightarrow> 'a list" where
  "setAdd xs x = (if x \<in> set xs then xs else xs @ [x])"

definition setDelete :: "'a list \<Rightarrow> 'a \<Rightarrow> 'a list" where
  "setDelete xs x = filter (\<lambda>y. y \<noteq> x) xs"

subsection \<open>createBridge\<close>

definition createBridge :: "('r, 'p) BridgeConfig \<Rightarrow> 'r \<Rightarrow> nat \<Rightarrow> 'r World" where
  "createBridge config r now =
     \<lparr>isDisposed = False,
      syncTimeoutId = None,
      pendingPaths = [],
      listeners = [],
      adapterUnsubscribe =
        ((syncModeOf config = pull \<or> syncModeOf config = bidirectional) \<and> hasSubscribe (adapter config)),
      runtimeUnsubscribe = (syncModeOf config = push \<or> syncModeOf config = bidirectional),
      clock = now,
      timers = [],
      nextTimer = 0,
      runtimeState = r,
      pushed = [],
      notified = []\<rparr>"

subsection \<open>Internal helpers\<close>

fun partitionPaths :: "SemanticPath list \<Rightarrow> SemanticPath list \<Rightarrow> SemanticPath list \<Rightarrow> SemanticPath list \<times> SemanticPath list" where
  "partitionPaths [] dataPaths statePaths = (dataPaths, statePaths)"
| "partitionPaths (p # ps) dataPaths statePaths =
     (if startsWith p ''state.'' then partitionPaths ps dataPaths (statePaths @ [p])
      else if startsWith p ''data.'' then partitionPaths ps (dataPaths @ [p]) statePaths
      else partitionPaths ps dataPaths statePaths)"

text \<open>
  The record of a batch call. Its keys begin with \<open>data.\<close> or \<open>state.\<close>, which is
  the name of no member of a built-in prototype, so each assignment sets an entry.
\<close>

fun collectUpdates :: "(SemanticPath \<Rightarrow> jsval) \<Rightarrow> SemanticPath list \<Rightarrow> js_record \<Rightarrow> js_record" where
  "collectUpdates read [] updates = updates"
| "collectUpdates read (p # ps) updates = collectUpdates read ps (setOwn updates p (read p))"

text \<open>
  \<open>pushToExternal\<close>, with the runtime's \<open>get\<close> as it answers while the push runs; the
  result is the sequence of calls made on the actuator.
\<close>

definition pushToExternal :: "Actuator \<Rightarrow> (SemanticPath \<Rightarrow> jsval) \<Rightarrow> SemanticPath list \<Rightarrow> ActuatorCall list" where
  "pushToExternal act read paths =
     (let (dataPaths, statePaths) = partitionPaths paths [] [] in
      (if length dataPaths > 0 then
         (if hasSetManyData act then [SetManyData (collectUpdates read dataPaths [])]
          else map (\<lambda>p. SetData p (read p)) dataPaths)
       else [])
      @
      (if length statePaths > 0 then
         (if hasSetManyState act then [SetManyState (collectUpdates read statePaths [])]
          else map (\<lambda>p. SetState p (read p)) statePaths)
       else []))"

definition pushNow :: "('r, 'p) BridgeConfig \<Rightarrow> SemanticPath list \<Rightarrow> 'r World \<Rightarrow> 'r World" where
  "pushNow config paths w =
     w\<lparr>pushed := pushed w @
        [(clock w, pushToExternal (actuator config) (runtime_get (runtime config) (runtimeState w)) paths)]\<rparr>"

definition flushPush :: "('r, 'p) BridgeConfig \<Rightarrow> 'r World \<Rightarrow> 'r World" where
  "flushPush config w =
     (if isDisposed w then w
      else
        (let pathsToSync = pendingPaths w in
         pushNow config pathsToSync (w\<lparr>pendingPaths := [], syncTimeoutId := None\<rparr>)))"

definition schedulePush :: "('r, 'p) BridgeConfig \<Rightarrow> SemanticPath list \<Rightarrow> 'r World \<Rightarrow> 'r World" where
  "schedulePush config paths w =
     (let w1 = w\<lparr>pendingPaths := foldl setAdd (pendingPaths w) paths\<rparr> in
      if debounceMsOf config > 0 then
        (let w2 = (case syncTimeoutId w1 of None \<Rightarrow> w1 | Some handle \<Rightarrow> clearTimeout handle w1);
             (handle, w3) = setTimeout (debounceMsOf config) w2
         in w3\<lparr>syncTimeoutId := Some handle\<rparr>)
      else flushPush config w1)"

definition assertNotDisposed :: "'r World \<Rightarrow> thrown + unit" where
  "assertNotDisposed w = (if isDisposed w then Inl (Error ''Bridge is disposed'') else Inr ())"

subsection \<open>The two subscriptions\<close>

text \<open>
  The listener that \<open>createBridge\<close> gives to \<open>adapter.subscribe\<close>. A throw of
  \<open>runtime.set\<close> ends the loop and leaves through the adapter.
\<close>

fun pullLoop :: "('r, 'p) BridgeConfig \<Rightarrow> SemanticPath list \<Rightarrow> 'r \<Rightarrow> thrown option \<times> 'r" where
  "pullLoop config [] r = (None, r)"
| "pullLoop config (p # ps) r =
     (let v = (if startsWith p ''state.'' then getState (adapter config) p
               else getData (adapter config) p)
      in (case runtime_set (runtime config) r p v of
            (Inl e, r') \<Rightarrow> (Some e, r')
          | (Inr res, r') \<Rightarrow> pullLoop config ps r'))"

definition onAdapterChange :: "('r, 'p) BridgeConfig \<Rightarrow> SemanticPath list \<Rightarrow> 'r World \<Rightarrow> thrown option \<times> 'r World" where
  "onAdapterChange config changedPaths w =
     (if isDisposed w then (None, w)
      else
        (let (e, r') = pullLoop config changedPaths (runtimeState w)
         in (e, w\<lparr>runtimeState := r'\<rparr>)))"

text \<open>
  The listener given to \<open>runtime.subscribe\<close>. An exception of a bridge listener is caught
  and logged, so every listener is served.
\<close>

definition onRuntimeChange :: "('r, 'p) BridgeConfig \<Rightarrow> DomainSnapshot \<Rightarrow> SemanticPath list \<Rightarrow> 'r World \<Rightarrow> 'r World" where
  "onRuntimeChange config snapshot changedPaths w =
     (if isDisposed w then w
      else
        (let w1 = (if autoSyncOf config then schedulePush config changedPaths w else w)
         in w1\<lparr>notified := notified w1 @ map (\<lambda>l. (l, snapshot, changedPaths)) (listeners w1)\<rparr>))"

subsection \<open>The methods of the bridge\<close>

text \<open>
  \<open>{...a, ...b}\<close>: the properties of \<open>b\<close> are defined on a copy of \<open>a\<close>, over those of
  \<open>a\<close>. Spreading defines properties; no setter is involved.
\<close>

fun spread :: "js_record \<Rightarrow> js_record \<Rightarrow> js_record" where
  "spread target [] = target"
| "spread target ((k, v) # src) = spread (setOwn target k v) src"

definition capture :: "('r, 'p) BridgeConfig \<Rightarrow> 'r World \<Rightarrow> (thrown + DomainSnapshot) \<times> 'r World" where
  "capture config w =
     (case assertNotDisposed w of
        Inl e \<Rightarrow> (Inl e, w)
      | Inr u \<Rightarrow>
          (let dataRecords = captureData (adapter config);
               stateRecords = captureState (adapter config);
               allUpdates = spread (spread [] dataRecords) stateRecords
           in (case runtime_setMany (runtime config) (runtimeState w) allUpdates of
                 (Inl e, r') \<Rightarrow> (Inl e, w\<lparr>runtimeState := r'\<rparr>)
               | (Inr res, r') \<Rightarrow>
                   (Inr (runtime_getSnapshot (runtime config) r'), w\<lparr>runtimeState := r'\<rparr>))))"

definition caught :: "thrown \<Rightarrow> (unit, BridgeError) Result" where
  "caught e =
     Err (bridgeError EXECUTION_ERROR
            (case e of Error m \<Rightarrow> m | NonError s \<Rightarrow> s)
            None
            (case e of Error m \<Rightarrow> Some e | NonError s \<Rightarrow> None))"

text \<open>
  \<open>execute\<close> is an async function: its value is the promise it returns. The promise
  stays pending only while the runtime's own promise does.
\<close>

definition execute :: "('r, 'p) BridgeConfig \<Rightarrow> Command \<Rightarrow> 'r World \<Rightarrow> (unit, BridgeError) Result promise \<times> 'r World" where
  "execute config command w =
     (if isDisposed w then
        (Fulfilled (Err (bridgeError DISPOSED_ERROR ''Bridge is disposed'' None None)), w)
      else
        (case command of
           SET_VALUE p v \<Rightarrow>
             (case runtime_set (runtime config) (runtimeState w) p v of
                (Inl e, r') \<Rightarrow> (Fulfilled (caught e), w\<lparr>runtimeState := r'\<rparr>)
              | (Inr (Err error), r') \<Rightarrow>
                  (Fulfilled (Err (bridgeError VALIDATION_ERROR (validation_message error) (Some p) None)),
                   w\<lparr>runtimeState := r'\<rparr>)
              | (Inr (Ok u), r') \<Rightarrow> (Fulfilled (Ok ()), w\<lparr>runtimeState := r'\<rparr>))
         | SET_MANY updates \<Rightarrow>
             (case runtime_setMany (runtime config) (runtimeState w) updates of
                (Inl e, r') \<Rightarrow> (Fulfilled (caught e), w\<lparr>runtimeState := r'\<rparr>)
              | (Inr (Err error), r') \<Rightarrow>
                  (Fulfilled (Err (bridgeError VALIDATION_ERROR (validation_message error)
                                     (validation_path error) None)),
                   w\<lparr>runtimeState := r'\<rparr>)
              | (Inr (Ok u), r') \<Rightarrow> (Fulfilled (Ok ()), w\<lparr>runtimeState := r'\<rparr>))
         | EXECUTE_ACTION actionId input \<Rightarrow>
             (case runtime_execute (runtime config) (runtimeState w) actionId input of
                (Inl e, r') \<Rightarrow> (Fulfilled (caught e), w\<lparr>runtimeState := r'\<rparr>)
              | (Inr (Rejected e), r') \<Rightarrow> (Fulfilled (caught e), w\<lparr>runtimeState := r'\<rparr>)
              | (Inr Pending, r') \<Rightarrow> (Pending, w\<lparr>runtimeState := r'\<rparr>)
              | (Inr (Fulfilled (Err m)), r') \<Rightarrow>
                  (Fulfilled (Err (bridgeError EXECUTION_ERROR m None (Some (Error m)))),
                   w\<lparr>runtimeState := r'\<rparr>)
              | (Inr (Fulfilled (Ok u)), r') \<Rightarrow> (Fulfilled (Ok ()), w\<lparr>runtimeState := r'\<rparr>))
         | OtherCommand tag \<Rightarrow>
             (Fulfilled (Err (bridgeError EXECUTION_ERROR (''Unknown command type: '' @ tag) None None)),
              w)))"

text \<open>
  Decimal rendering of an array index, for \<open>Object.keys\<close> of an array. The keys of an
  array are the indices of its elements, holes left out, then its named properties; a
  function or a built-in object has no enumerable own property.
\<close>

fun indexKey :: "nat \<Rightarrow> string" where
  "indexKey n =
     (if n < 10 then [char_of (48 + n)]
      else indexKey (n div 10) @ [char_of (48 + n mod 10)])"

declare indexKey.simps [simp del]

fun objectKeys :: "jsval \<Rightarrow> string list" where
  "objectKeys (Obj ps) = map fst ps"
| "objectKeys (Arr es named) =
     map indexKey (filter (\<lambda>i. es ! i \<noteq> None) [0..<length es]) @ map fst named"
| "objectKeys v = []"

text \<open>\<open>x && typeof x === 'object'\<close>\<close>

fun isObjectValue :: "jsval \<Rightarrow> bool" where
  "isObjectValue (Obj ps) = True"
| "isObjectValue (Arr es named) = True"
| "isObjectValue (Builtin b) = True"
| "isObjectValue v = False"

definition allPathsOf :: "DomainSnapshot \<Rightarrow> SemanticPath list" where
  "allPathsOf snapshot =
     (if isObjectValue (snapshot_data snapshot)
      then map (\<lambda>key. ''data.'' @ key) (objectKeys (snapshot_data snapshot)) else [])
     @
     (if isObjectValue (snapshot_state snapshot)
      then map (\<lambda>key. ''state.'' @ key) (objectKeys (snapshot_state snapshot)) else [])"

definition sync :: "('r, 'p) BridgeConfig \<Rightarrow> 'r World \<Rightarrow> (thrown + unit) \<times> 'r World" where
  "sync config w =
     (case assertNotDisposed w of
        Inl e \<Rightarrow> (Inl e, w)
      | Inr u \<Rightarrow>
          (let w1 = (case syncTimeoutId w of
                       None \<Rightarrow> w
                     | Some handle \<Rightarrow> (clearTimeout handle w)\<lparr>syncTimeoutId := None\<rparr>);
               snapshot = runtime_getSnapshot (runtime config) (runtimeState w1)
           in (Inr (), pushNow config (allPathsOf snapshot) w1)))"

definition dispose :: "'r World \<Rightarrow> 'r World" where
  "dispose w =
     (if isDisposed w then w
      else
        (let w1 = w\<lparr>isDisposed := True\<rparr>;
             w2 = (case syncTimeoutId w1 of
                     None \<Rightarrow> w1
                   | Some handle \<Rightarrow> (clearTimeout handle w1)\<lparr>syncTimeoutId := None\<rparr>)
         in w2\<lparr>adapterUnsubscribe := False, runtimeUnsubscribe := False,
               listeners := [], pendingPaths := []\<rparr>))"

definition get :: "('r, 'p) BridgeConfig \<Rightarrow> SemanticPath \<Rightarrow> 'r World \<Rightarrow> thrown + jsval" where
  "get config p w =
     (case assertNotDisposed w of
        Inl e \<Rightarrow> Inl e
      | Inr u \<Rightarrow> Inr (runtime_get (runtime config) (runtimeState w) p))"

definition getFieldPolicy :: "('r, 'p) BridgeConfig \<Rightarrow> SemanticPath \<Rightarrow> 'r World \<Rightarrow> thrown + 'p" where
  "getFieldPolicy config p w =
     (case assertNotDisposed w of
        Inl e \<Rightarrow> Inl e
      | Inr u \<Rightarrow> Inr (runtime_getFieldPolicy (runtime config) (runtimeState w) p))"

definition isActionAvailable :: "('r, 'p) BridgeConfig \<Rightarrow> string \<Rightarrow> 'r World \<Rightarrow> thrown + bool" where
  "isActionAvailable config actionId w =
     (case assertNotDisposed w of
        Inl e \<Rightarrow> Inl e
      | Inr u \<Rightarrow>
          (let preconditions = runtime_getPreconditions (runtime config) (runtimeState w) actionId
           in Inr (list_all satisfied preconditions)))"

text \<open>\<open>subscribe\<close> returns the closure \<open>unsubscribe\<close>, which is the second function here.\<close>

definition subscribe :: "nat \<Rightarrow> 'r World \<Rightarrow> (thrown + unit) \<times> 'r World" where
  "subscribe listener w =
     (case assertNotDisposed w of
        Inl e \<Rightarrow> (Inl e, w)
      | Inr u \<Rightarrow> (Inr (), w\<lparr>listeners := setAdd (listeners w) listener\<rparr>))"

definition unsubscribe :: "nat \<Rightarrow> 'r World \<Rightarrow> 'r World" where
  "unsubscribe listener w = w\<lparr>listeners := setDelete (listeners w) listener\<rparr>"

subsection \<open>What happens around a bridge\<close>

text \<open>
  A timer of the bridge always carries \<open>flushPush\<close>. When it fires, the host has taken
  it from its queue and the clock has reached its due time.
\<close>

definition fireTimer :: "('r, 'p) BridgeConfig \<Rightarrow> nat \<times> nat \<Rightarrow> 'r World \<Rightarrow> 'r World" where
  "fireTimer config t w =
     (if t \<in> set (timers w) then
        flushPush config
          (w\<lparr>clock := max (clock w) (snd t), timers := filter (\<lambda>u. u \<noteq> t) (timers w)\<rparr>)
      else w)"

text \<open>Time passes: the timers that fall due fire in the order of their due times.\<close>

definition elapse :: "('r, 'p) BridgeConfig \<Rightarrow> nat \<Rightarrow> 'r World \<Rightarrow> 'r World" where
  "elapse config n w =
     (let target = clock w + n;
          due = sort_key snd (filter (\<lambda>t. snd t \<le> target) (timers w));
          w' = foldl (\<lambda>w t. fireTimer config t w) w due
      in w'\<lparr>clock := target\<rparr>)"

text \<open>
  The runtime changes its state, the runtime reports changed paths to its subscribers,
  the adapter reports changed paths to its subscribers, time passes. A report reaches the
  bridge while the bridge holds the subscription.
\<close>

datatype 'r Event =
    RuntimeWrite 'r
  | RuntimeNotify "SemanticPath list"
  | AdapterNotify "SemanticPath list"
  | Elapse nat

fun step :: "('r, 'p) BridgeConfig \<Rightarrow> 'r World \<Rightarrow> 'r Event \<Rightarrow> 'r World" where
  "step config w (RuntimeWrite r) = w\<lparr>runtimeState := r\<rparr>"
| "step config w (RuntimeNotify changedPaths) =
     (if runtimeUnsubscribe w
      then onRuntimeChange config (runtime_getSnapshot (runtime config) (runtimeState w)) changedPaths w
      else w)"
| "step config w (AdapterNotify changedPaths) =
     (if adapterUnsubscribe w then snd (onAdapterChange config changedPaths w) else w)"
| "step config w (Elapse n) = elapse config n w"

definition run :: "('r, 'p) BridgeConfig \<Rightarrow> 'r Event list \<Rightarrow> 'r World \<Rightarrow> 'r World" where
  "run config events w = foldl (step config) w events"


subsection \<open>Notions used to state the properties of the bridge\<close>

text \<open>The paths and values that one actuator call carries.\<close>

fun writes :: "ActuatorCall \<Rightarrow> (SemanticPath \<times> jsval) list" where
  "writes (SetData p v) = [(p, v)]"
| "writes (SetState p v) = [(p, v)]"
| "writes (SetManyData updates) = updates"
| "writes (SetManyState updates) = updates"

definition isDataPath :: "SemanticPath \<Rightarrow> bool" where
  "isDataPath p = startsWith p ''data.''"

definition isStatePath :: "SemanticPath \<Rightarrow> bool" where
  "isStatePath p = startsWith p ''state.''"

text \<open>
  A small runtime for the examples: its state is a flat record from paths to values, it
  accepts every write, and its snapshot groups the values by namespace.
\<close>

definition flatSnapshot :: "js_record \<Rightarrow> DomainSnapshot" where
  "flatSnapshot r =
     \<lparr>snapshot_data = Obj (map (\<lambda>(k, v). (drop 5 k, v)) (filter (\<lambda>(k, v). startsWith k ''data.'') r)),
      snapshot_state = Obj (map (\<lambda>(k, v). (drop 6 k, v)) (filter (\<lambda>(k, v). startsWith k ''state.'') r))\<rparr>"

definition flatRuntime :: "(js_record, unit) DomainRuntime" where
  "flatRuntime =
     \<lparr>runtime_get = lookupOwn,
      runtime_set = (\<lambda>r p v. (Inr (Ok ()), setOwn r p v)),
      runtime_setMany = (\<lambda>r updates. (Inr (Ok ()), spread r updates)),
      runtime_execute = (\<lambda>r actionId input. (Inr (Fulfilled (Ok ())), r)),
      runtime_getSnapshot = flatSnapshot,
      runtime_getFieldPolicy = (\<lambda>r p. ()),
      runtime_getPreconditions = (\<lambda>r actionId. [])\<rparr>"

definition constAdapter :: "jsval \<Rightarrow> Adapter" where
  "constAdapter v =
     \<lparr>getData = (\<lambda>p. v), getState = (\<lambda>p. v), hasSubscribe = True,
      captureData = [], captureState = []\<rparr>"

definition exampleConfig :: "bool \<Rightarrow> int \<Rightarrow> (js_record, unit) BridgeConfig" where
  "exampleConfig batch ms =
     \<lparr>runtime = flatRuntime,
      adapter = constAdapter (Num 7),
      actuator = \<lparr>hasSetManyData = batch, hasSetManyState = batch\<rparr>,
      syncMode = None,
      autoSync = None,
      debounceMs = Some ms\<rparr>"

text \<open>
  A bridge is at rest between two events when it is in use, subscribed to the runtime,
  and the host's queue holds the timer the bridge remembers, not yet due, and nothing
  else.
\<close>

definition atRest :: "'r World \<Rightarrow> bool" where
  "atRest w =
     (\<not> isDisposed w \<and> runtimeUnsubscribe w \<and>
      (case syncTimeoutId w of
         None \<Rightarrow> timers w = []
       | Some handle \<Rightarrow>
           length (timers w) = 1 \<and> fst (hd (timers w)) = handle \<and> clock w < snd (hd (timers w))))"

section \<open>Properties of the path utilities\<close>

subsection \<open>Reading and writing one property\<close>

lemma getNestedValue_append:
  "getNestedValue R e root (pre @ post) =
     (case getNestedValue R e root pre of Inl x \<Rightarrow> Inl x | Inr w \<Rightarrow> getNestedValue R e w post)"
proof (induction pre arbitrary: root)
  case Nil
  show ?case by simp
next
  case (Cons s pre)
  show ?case
  proof (cases "root = Null \<or> root = Undefined")
    case True
    then show ?thesis by (cases post) auto
  next
    case False
    show ?thesis
    proof (cases "getProp R e root s")
      case (Inl x)
      with False show ?thesis by simp
    next
      case (Inr w)
      with False Cons.IH [of w] show ?thesis by simp
    qed
  qed
qed

lemma getNestedValue_returns:
  assumes "\<forall>base. \<forall>k \<in> set segments.
      (if isForeign base then \<exists>w. foreignGet R e base k = Inr w
       else \<exists>w. chainGet R e base k = Inr w)"
  shows "\<exists>w. getNestedValue R e root segments = Inr w"
  using assms
proof (induction segments arbitrary: root)
  case Nil
  show ?case by simp
next
  case (Cons s rest)
  show ?case
  proof (cases "root = Null \<or> root = Undefined")
    case True
    then show ?thesis by auto
  next
    case False
    from Cons.prems have "if isForeign root then \<exists>w. foreignGet R e root s = Inr w
       else \<exists>w. chainGet R e root s = Inr w"
      by simp
    with False have "\<exists>w. getProp R e root s = Inr w"
      by (auto simp: getProp_def split: if_splits)
    then obtain w where w: "getProp R e root s = Inr w" ..
    from Cons.prems have "\<forall>base. \<forall>k \<in> set rest.
        (if isForeign base then \<exists>w. foreignGet R e base k = Inr w
         else \<exists>w. chainGet R e base k = Inr w)"
      by simp
    from Cons.IH [OF this, of w] w False show ?thesis by simp
  qed
qed




lemma lookupOwn_absent: "\<not> hasOwn ps k \<Longrightarrow> lookupOwn ps k = Undefined"
  by (induction ps) auto





lemma length_not_index: "\<not> isArrayIndex ''length''"
  by (simp add: isArrayIndex_def isDigits_def isDigit_def)
































subsection \<open>Reading a nested value\<close>


lemma sampleRealm_returns:
  "(\<exists>w. chainGet sampleRealm e base k = Inr w) \<and> (\<exists>w. foreignGet sampleRealm e base k = Inr w)"
  by (simp add: sampleRealm_def)

text \<open>
  C7. With no segment \<open>getNestedValue\<close> returns the root. The loop itself never throws:
  the call returns whenever no member that the prototype chains or the functions and
  built-in objects hold under a segment throws when it is read. Once the walk has reached
  \<open>null\<close> or \<open>undefined\<close>, every further segment yields \<open>undefined\<close>. From a boolean, a
  number, or an object that lacks the key, the next segment reads the prototype chain: the
  result is what the chain holds under that key, and it is \<open>undefined\<close>, for this and
  every further segment, when the chain holds nothing there. A key that an object has is
  answered by the object. A string is not a dead end either: the loop indexes it, so its
  \<open>length\<close> and its characters are returned.
\<close>

theorem getNestedValue_total:
  "getNestedValue R e root [] = Inr root
   \<and> ((\<forall>base. \<forall>k \<in> set segments.
          (if isForeign base then \<exists>w. foreignGet R e base k = Inr w
           else \<exists>w. chainGet R e base k = Inr w))
        \<longrightarrow> (\<exists>w. getNestedValue R e root segments = Inr w))
   \<and> (getNestedValue R e root pre = Inr w \<and> (w = Undefined \<or> w = Null)
        \<longrightarrow> getNestedValue R e root (pre @ segment # rest) = Inr Undefined)
   \<and> (getNestedValue R e root pre = Inr w \<and> ((\<exists>b. w = Bool b) \<or> (\<exists>n. w = Num n))
        \<longrightarrow> getNestedValue R e root (pre @ [key]) = chainGet R e w key)
   \<and> (getNestedValue R e root pre = Inr (Obj ps) \<and> \<not> hasOwn ps key
        \<longrightarrow> getNestedValue R e root (pre @ [key]) = chainGet R e (Obj ps) key)
   \<and> (getNestedValue R e root pre = Inr w \<and> \<not> isForeign w \<and> \<not> ownKey w key
          \<and> chainGet R e w key = Inr Undefined
        \<longrightarrow> getNestedValue R e root (pre @ key # rest) = Inr Undefined)
   \<and> (getNestedValue R e root pre = Inr (Obj ps) \<and> hasOwn ps key
        \<longrightarrow> getNestedValue R e root (pre @ [key]) = Inr (lookupOwn ps key))
   \<and> (getNestedValue R e root pre = Inr (Str s)
        \<longrightarrow> getNestedValue R e root (pre @ [''length'']) = Inr (Num (int (length s))))
   \<and> (getNestedValue R e root pre = Inr (Str s) \<and> isArrayIndex key \<and> decimal key < length s
        \<longrightarrow> getNestedValue R e root (pre @ [key]) = Inr (Str [s ! decimal key]))"
proof (intro conjI impI)
  show "getNestedValue R e root [] = Inr root"
    by simp
next
  assume "\<forall>base. \<forall>k \<in> set segments.
      (if isForeign base then \<exists>w. foreignGet R e base k = Inr w
       else \<exists>w. chainGet R e base k = Inr w)"
  then show "\<exists>w. getNestedValue R e root segments = Inr w"
    by (rule getNestedValue_returns)
next
  assume a: "getNestedValue R e root pre = Inr w \<and> (w = Undefined \<or> w = Null)"
  then have "getNestedValue R e w (segment # rest) = Inr Undefined"
    by auto
  with a show "getNestedValue R e root (pre @ segment # rest) = Inr Undefined"
    by (simp add: getNestedValue_append del: getNestedValue.simps)
next
  assume a: "getNestedValue R e root pre = Inr w \<and> ((\<exists>b. w = Bool b) \<or> (\<exists>n. w = Num n))"
  then have "getNestedValue R e w [key] = chainGet R e w key"
    by (auto simp: getProp_def split: sum.splits)
  with a show "getNestedValue R e root (pre @ [key]) = chainGet R e w key"
    by (simp add: getNestedValue_append del: getNestedValue.simps)
next
  assume a: "getNestedValue R e root pre = Inr (Obj ps) \<and> \<not> hasOwn ps key"
  then have "getNestedValue R e (Obj ps) [key] = chainGet R e (Obj ps) key"
    by (auto simp: getProp_def split: sum.splits)
  with a show "getNestedValue R e root (pre @ [key]) = chainGet R e (Obj ps) key"
    by (simp add: getNestedValue_append del: getNestedValue.simps)
next
  assume a: "getNestedValue R e root pre = Inr w \<and> \<not> isForeign w \<and> \<not> ownKey w key
      \<and> chainGet R e w key = Inr Undefined"
  have "getNestedValue R e w (key # rest) = Inr Undefined"
  proof (cases "w = Null \<or> w = Undefined")
    case True
    then show ?thesis by auto
  next
    case False
    with a have "getProp R e w key = Inr Undefined" by (simp add: getProp_def)
    with False show ?thesis by (cases rest) auto
  qed
  with a show "getNestedValue R e root (pre @ key # rest) = Inr Undefined"
    by (simp add: getNestedValue_append del: getNestedValue.simps)
next
  assume a: "getNestedValue R e root pre = Inr (Obj ps) \<and> hasOwn ps key"
  then have "getNestedValue R e (Obj ps) [key] = Inr (lookupOwn ps key)"
    by (simp add: getProp_def)
  with a show "getNestedValue R e root (pre @ [key]) = Inr (lookupOwn ps key)"
    by (simp add: getNestedValue_append del: getNestedValue.simps)
next
  assume a: "getNestedValue R e root pre = Inr (Str s)"
  have "getNestedValue R e (Str s) [''length''] = Inr (Num (int (length s)))"
    by (simp add: getProp_def)
  with a show "getNestedValue R e root (pre @ [''length'']) = Inr (Num (int (length s)))"
    by (simp add: getNestedValue_append del: getNestedValue.simps)
next
  assume a: "getNestedValue R e root pre = Inr (Str s) \<and> isArrayIndex key \<and> decimal key < length s"
  then have "key \<noteq> ''length''" using length_not_index by auto
  with a have "getNestedValue R e (Str s) [key] = Inr (Str [s ! decimal key])"
    by (simp add: getProp_def)
  with a show "getNestedValue R e root (pre @ [key]) = Inr (Str [s ! decimal key])"
    by (simp add: getNestedValue_append del: getNestedValue.simps)
qed

theorem getNestedValue_total_witness:
  "getNestedValue sampleRealm [] (Obj [(''user'', Null)]) [''user''] = Inr Null
   \<and> getNestedValue sampleRealm [] (Obj [(''user'', Null)]) ([''user''] @ ''name'' # [''first''])
       = Inr Undefined
   \<and> getNestedValue sampleRealm [] (Obj [(''a'', Num 5)]) [''a''] = Inr (Num 5)
   \<and> getNestedValue sampleRealm [] (Obj [(''a'', Num 5)]) ([''a''] @ [''constructor''])
       = Inr (Func 3)
   \<and> getNestedValue sampleRealm [] (Obj [(''a'', Num 5)]) ([''a''] @ ''b'' # [''c''])
       = Inr Undefined
   \<and> getNestedValue sampleRealm [] (Obj [(''a'', Num 5)]) [''a'', ''constructor'', ''name'']
       = Inr (Str ''Number'')
   \<and> getNestedValue sampleRealm [] (Obj [(''user'', Obj [(''name'', Str ''John'')])]) [''user'']
       = Inr (Obj [(''name'', Str ''John'')])
   \<and> \<not> hasOwn [(''name'', Str ''John'')] ''age''
   \<and> getNestedValue sampleRealm [] (Obj [(''user'', Obj [(''name'', Str ''John'')])])
        ([''user''] @ [''age'']) = Inr Undefined
   \<and> getNestedValue sampleRealm [] (Obj [(''user'', Obj [(''name'', Str ''John'')])])
        ([''user''] @ [''name'']) = Inr (Str ''John'')
   \<and> getNestedValue sampleRealm [] (Obj []) ([] @ [''constructor'']) = Inr (Func 0)
   \<and> isArrayIndex ''1'' \<and> decimal ''1'' < length ''John''
   \<and> getNestedValue sampleRealm [] (Obj [(''user'', Obj [(''name'', Str ''John'')])])
        ([''user'', ''name''] @ [''1'']) = Inr (Str ''o'')
   \<and> getNestedValue sampleRealm [] (Obj [(''user'', Obj [(''name'', Str ''John'')])])
        ([''user'', ''name''] @ [''length'']) = Inr (Num 4)"
proof -
  let ?R = "sampleRealm" and ?e = "[] :: sampleEnv"
  let ?u = "Obj [(''user'', Null)]" and ?a = "Obj [(''a'', Num 5)]"
  let ?j = "Obj [(''user'', Obj [(''name'', Str ''John'')])]"
  have u: "getNestedValue ?R ?e ?u [''user''] = Inr Null"
    and a: "getNestedValue ?R ?e ?a [''a''] = Inr (Num 5)"
    and j: "getNestedValue ?R ?e ?j [''user''] = Inr (Obj [(''name'', Str ''John'')])"
    and o: "getNestedValue ?R ?e (Obj []) [] = Inr (Obj [])"
    by (simp_all add: getProp_def)
  have name: "getNestedValue ?R ?e ?a [''a'', ''constructor'', ''name''] = Inr (Str ''Number'')"
    by (simp add: getProp_def sampleRealm_def constructorName_def)
  have lacks: "\<not> hasOwn [(''name'', Str ''John'')] ''age''" and has: "hasOwn [(''name'', Str ''John'')] ''name''"
    and none: "\<not> hasOwn [] ''constructor''"
    by simp_all
  have plain: "\<not> isForeign (Num 5) \<and> \<not> ownKey (Num 5) ''b'' \<and> chainGet ?R ?e (Num 5) ''b'' = Inr Undefined"
    by (simp add: sampleRealm_def)
  have quiet: "\<forall>base. \<forall>k \<in> set [''a'', ''constructor'', ''name''].
      (if isForeign base then \<exists>w. foreignGet ?R ?e base k = Inr w
       else \<exists>w. chainGet ?R ?e base k = Inr w)"
    using sampleRealm_returns by simp
  from getNestedValue_total [where R = ?R and e = ?e and root = ?u and pre = "[''user'']" and w = Null
      and segment = "''name''" and rest = "[''first'']"] u
  have 1: "getNestedValue ?R ?e ?u ([''user''] @ ''name'' # [''first'']) = Inr Undefined"
    by blast
  note inst = getNestedValue_total [where R = ?R and e = ?e and root = ?a
      and segments = "[''a'', ''constructor'', ''name'']" and pre = "[''a'']" and w = "Num 5"
      and key = "''constructor''"]
  from inst a have "getNestedValue ?R ?e ?a ([''a''] @ [''constructor'']) = chainGet ?R ?e (Num 5) ''constructor''"
    by blast
  then have 2: "getNestedValue ?R ?e ?a ([''a''] @ [''constructor'']) = Inr (Func 3)"
    by (simp add: sampleRealm_def)
  from inst quiet have 3: "\<exists>w. getNestedValue ?R ?e ?a [''a'', ''constructor'', ''name''] = Inr w"
    by blast
  from getNestedValue_total [where R = ?R and e = ?e and root = ?a and pre = "[''a'']" and w = "Num 5"
      and key = "''b''" and rest = "[''c'']"] a plain
  have 4: "getNestedValue ?R ?e ?a ([''a''] @ ''b'' # [''c'']) = Inr Undefined"
    by blast
  from getNestedValue_total [where R = ?R and e = ?e and root = ?j and pre = "[''user'']"
      and key = "''age''" and ps = "[(''name'', Str ''John'')]"] j lacks
  have "getNestedValue ?R ?e ?j ([''user''] @ [''age''])
      = chainGet ?R ?e (Obj [(''name'', Str ''John'')]) ''age''"
    by blast
  then have 5: "getNestedValue ?R ?e ?j ([''user''] @ [''age'']) = Inr Undefined"
    by (simp add: sampleRealm_def)
  from getNestedValue_total [where R = ?R and e = ?e and root = ?j and pre = "[''user'']"
      and key = "''name''" and ps = "[(''name'', Str ''John'')]"] j has
  have "getNestedValue ?R ?e ?j ([''user''] @ [''name'']) = Inr (lookupOwn [(''name'', Str ''John'')] ''name'')"
    by blast
  then have 6: "getNestedValue ?R ?e ?j ([''user''] @ [''name'']) = Inr (Str ''John'')"
    by simp
  from getNestedValue_total [where R = ?R and e = ?e and root = "Obj []" and pre = "[]"
      and key = "''constructor''" and ps = "[]"] o none
  have "getNestedValue ?R ?e (Obj []) ([] @ [''constructor'']) = chainGet ?R ?e (Obj []) ''constructor''"
    by blast
  then have 7: "getNestedValue ?R ?e (Obj []) ([] @ [''constructor'']) = Inr (Func 0)"
    by (simp add: sampleRealm_def)
  have jn: "getNestedValue ?R ?e ?j [''user'', ''name''] = Inr (Str ''John'')"
    by (simp add: getProp_def)
  have ix: "isArrayIndex ''1'' \<and> decimal ''1'' < length ''John''"
    by (simp add: isArrayIndex_def isDigits_def isDigit_def decimal_def digitVal_def)
  from getNestedValue_total [where R = ?R and e = ?e and root = ?j and pre = "[''user'', ''name'']"
      and s = "''John''" and key = "''1''"] jn ix
  have "getNestedValue ?R ?e ?j ([''user'', ''name''] @ [''1'']) = Inr (Str [''John'' ! decimal ''1''])"
    by blast
  then have 8: "getNestedValue ?R ?e ?j ([''user'', ''name''] @ [''1'']) = Inr (Str ''o'')"
    by (simp add: decimal_def digitVal_def)
  from getNestedValue_total [where R = ?R and e = ?e and root = ?j and pre = "[''user'', ''name'']"
      and s = "''John''"] jn
  have "getNestedValue ?R ?e ?j ([''user'', ''name''] @ [''length'']) = Inr (Num (int (length ''John'')))"
    by blast
  then have 9: "getNestedValue ?R ?e ?j ([''user'', ''name''] @ [''length'']) = Inr (Num 4)"
    by simp
  from u a j name lacks 1 2 3 4 5 6 7 8 9 ix show ?thesis by blast
qed

theorem getNestedValue_string_counterexample:
  "getNestedValue sampleRealm [] (Obj [(''name'', Str ''John'')]) [''name'', ''length''] = Inr (Num 4)"
  by (simp add: getProp_def)

subsection \<open>Writing and reading back\<close>




subsection \<open>Addressing the vanilla store\<close>

text \<open>
  C9. \<open>setValueByPath\<close> leaves the store as it is when the path has fewer than two
  segments or its first segment is neither \<open>data\<close> nor \<open>state\<close>. \<open>getValueByPath\<close>
  returns \<open>undefined\<close> when the path has no segment or its first segment is neither
  \<open>data\<close> nor \<open>state\<close>; for the one-segment paths \<open>data\<close> and \<open>state\<close> it returns the
  whole \<open>store.data\<close> and \<open>store.state\<close>.
\<close>

theorem vanilla_addressing_guard:
  "(length (parsePath path) < 2 \<or> firstSegment path \<notin> {Some ''data'', Some ''state''}
    \<longrightarrow> setValueByPath R e store path v = Inr (store, e))
   \<and> (parsePath path = [] \<or> firstSegment path \<notin> {Some ''data'', Some ''state''}
    \<longrightarrow> getValueByPath R e store path = Inr Undefined)
   \<and> (parsePath path = [''data''] \<longrightarrow> getValueByPath R e store path = Inr (data store))
   \<and> (parsePath path = [''state''] \<longrightarrow> getValueByPath R e store path = Inr (state store))"
  by (cases "parsePath path")
     (auto simp: setValueByPath_def getValueByPath_def firstSegment_def Let_def)

theorem vanilla_addressing_guard_witness:
  "firstSegment ''derived.total'' \<notin> {Some ''data'', Some ''state''}
   \<and> setValueByPath sampleRealm [] \<lparr>data = Obj [(''name'', Str ''John'')], state = Obj []\<rparr>
        ''derived.total'' (Num 1) = Inr (\<lparr>data = Obj [(''name'', Str ''John'')], state = Obj []\<rparr>, [])
   \<and> getValueByPath sampleRealm [] \<lparr>data = Obj [(''name'', Str ''John'')], state = Obj []\<rparr>
        ''derived.total'' = Inr Undefined
   \<and> parsePath ''state'' = [''state'']
   \<and> getValueByPath sampleRealm [] \<lparr>data = Obj [(''name'', Str ''John'')], state = Obj []\<rparr> ''state''
        = Inr (Obj [])"
  using vanilla_addressing_guard [where path = "''derived.total''" and R = sampleRealm and e = "[]"
      and store = "\<lparr>data = Obj [(''name'', Str ''John'')], state = Obj []\<rparr>" and v = "Num 1"]
    vanilla_addressing_guard [where path = "''state''" and R = sampleRealm and e = "[]"
      and store = "\<lparr>data = Obj [(''name'', Str ''John'')], state = Obj []\<rparr>" and v = "Num 1"]
  by (simp add: firstSegment_def parsePath_def)

theorem getValueByPath_namespace_counterexample:
  "length (parsePath ''data'') < 2
   \<and> getValueByPath sampleRealm [] \<lparr>data = Obj [(''name'', Str ''John'')], state = Obj []\<rparr> ''data''
        = Inr (Obj [(''name'', Str ''John'')])"
  by (simp add: getValueByPath_def parsePath_def)

subsection \<open>Flattening\<close>

lemma set_replaceOwn: "set (replaceOwn ps k v) \<subseteq> insert (k, v) (set ps)"
  by (induction ps) (auto split: if_splits)

lemma set_insertOwn: "set (insertOwn ps k v) = insert (k, v) (set ps)"
  by (induction ps) (auto split: if_splits)

lemma set_setOwn: "set (setOwn ps k v) \<subseteq> insert (k, v) (set ps)"
  using set_replaceOwn [of ps k v] by (auto simp: setOwn_def set_insertOwn)

lemma recordSet_set:
  assumes "recordSet R e result k v = Inr (result', e')"
  shows "set result' \<subseteq> insert (k, v) (set result)"
proof (cases "hasOwn result k")
  case True
  with assms show ?thesis using set_replaceOwn [of result k v] by (auto simp: recordSet_def)
next
  case False
  with assms show ?thesis
    by (cases "chainSet R e (Obj result) k v") (auto simp: recordSet_def set_insertOwn)
qed

lemma recordSet_free:
  "chainSet R e (Obj result) k v = NoObstacle \<Longrightarrow> recordSet R e result k v = Inr (setOwn result k v, e)"
  by (simp add: recordSet_def setOwn_def)

lemma objectAssign_set:
  "objectAssign R e target src = Inr (target', e') \<Longrightarrow> set target' \<subseteq> set target \<union> set src"
proof (induction src arbitrary: target e)
  case Nil
  then show ?case by simp
next
  case (Cons kv src)
  obtain k v where kv: "kv = (k, v)" by (cases kv)
  from Cons.prems obtain t1 e1 where
    one: "recordSet R e target k v = Inr (t1, e1)" and rest: "objectAssign R e1 t1 src = Inr (target', e')"
    unfolding kv by (cases "recordSet R e target k v") auto
  from Cons.IH [OF rest] recordSet_set [OF one] show ?case unfolding kv by auto
qed

lemma objectAssign_free:
  "\<forall>(k, w) \<in> set src. \<forall>base u. chainSet R e base k u = NoObstacle
     \<Longrightarrow> objectAssign R e target src = Inr (foldl (\<lambda>t (k, w). setOwn t k w) target src, e)"
proof (induction src arbitrary: target)
  case Nil
  show ?case by simp
next
  case (Cons kv src)
  obtain k v where kv: "kv = (k, v)" by (cases kv)
  from Cons.prems have "chainSet R e (Obj target) k v = NoObstacle" unfolding kv by simp
  then have one: "recordSet R e target k v = Inr (setOwn target k v, e)" by (rule recordSet_free)
  from Cons.prems have "\<forall>(k, w) \<in> set src. \<forall>base u. chainSet R e base k u = NoObstacle" by simp
  from Cons.IH [OF this, of "setOwn target k v"] one show ?case unfolding kv by simp
qed

lemma flattenEntries_snoc:
  "flattenEntries R e (ps @ [(key, v)]) prefix result =
     (case flattenEntries R e ps prefix result of
        Inl x \<Rightarrow> Inl x
      | Inr (result', e1) \<Rightarrow>
          (if isObjectNotArray v then
             (case flattenObject R e1 v (prefix @ ''.'' @ key) of
                Inl x \<Rightarrow> Inl x
              | Inr (sub, e2) \<Rightarrow> objectAssign R e2 result' sub)
           else recordSet R e1 result' (prefix @ ''.'' @ key) v))"
proof (induction ps arbitrary: result e)
  case Nil
  show ?case by (simp add: Let_def split: sum.splits prod.splits)
next
  case (Cons kw ps)
  obtain k w where kw: "kw = (k, w)" by (cases kw)
  show ?case unfolding kw by (simp add: Let_def Cons.IH split: sum.splits prod.splits)
qed

lemma flattenEntries_Cons:
  "flattenEntries R e ((key, v) # rest) prefix result =
     (case (if isObjectNotArray v then
              (case flattenObject R e v (prefix @ ''.'' @ key) of
                 Inl x \<Rightarrow> Inl x
               | Inr (sub, e1) \<Rightarrow> objectAssign R e1 result sub)
            else recordSet R e result (prefix @ ''.'' @ key) v) of
        Inl x \<Rightarrow> Inl x
      | Inr (result', e') \<Rightarrow> flattenEntries R e' rest prefix result')"
  by (simp add: Let_def)

lemma flatten_leaves:
  "flattenObject R e v prefix = Inr (res, e') \<Longrightarrow> \<forall>(q, w) \<in> set res. \<not> isObjectNotArray w"
  "\<forall>(q, w) \<in> set result. \<not> isObjectNotArray w \<Longrightarrow> flattenEntries R e ps prefix result = Inr (res, e')
     \<Longrightarrow> \<forall>(q, w) \<in> set res. \<not> isObjectNotArray w"
proof (induction R e v prefix and R e ps prefix result arbitrary: res e' and res e'
    rule: flattenObject_flattenEntries.induct)
  case (11 R e key v rest prefix result)
  let ?full = "prefix @ ''.'' @ key"
  let ?step = "if isObjectNotArray v then
       (case flattenObject R e v ?full of
          Inl x \<Rightarrow> Inl x
        | Inr (sub, e1) \<Rightarrow> objectAssign R e1 result sub)
     else recordSet R e result ?full v"
  define step where "step = ?step"
  have "flattenEntries R e ((key, v) # rest) prefix result =
     (case step of Inl x \<Rightarrow> Inl x | Inr (result', e') \<Rightarrow> flattenEntries R e' rest prefix result')"
    unfolding step_def by (rule flattenEntries_Cons)
  with "11.prems"(2) obtain r1 e1 where "step = Inr (r1, e1)"
    and rest: "flattenEntries R e1 rest prefix r1 = Inr (res, e')"
    by (cases step) auto
  then have step: "?step = Inr (r1, e1)" by (simp only: step_def)
  have "\<forall>(q, w) \<in> set r1. \<not> isObjectNotArray w"
  proof (cases "isObjectNotArray v")
    case True
    with step have "(case flattenObject R e v ?full of
          Inl x \<Rightarrow> Inl x
        | Inr (sub, e1) \<Rightarrow> objectAssign R e1 result sub) = Inr (r1, e1)"
      by (simp only: if_True)
    then obtain sub e0 where sub: "flattenObject R e v ?full = Inr (sub, e0)"
      and asg: "objectAssign R e0 result sub = Inr (r1, e1)"
      by (cases "flattenObject R e v ?full") (auto simp del: append.simps)
    from "11.IH"(1) [OF refl True sub] "11.prems"(1) objectAssign_set [OF asg]
    show ?thesis by auto
  next
    case False
    with step have "recordSet R e result ?full v = Inr (r1, e1)" by (simp only: if_False)
    from recordSet_set [OF this] False "11.prems"(1) show ?thesis by auto
  qed
  with "11.IH"(2) [OF refl step refl _ rest] show ?case by blast
next
  case (3 R e b prefix)
  from recordSet_set [OF "3.prems" [simplified]] show ?case by auto
next
  case (4 R e n prefix)
  from recordSet_set [OF "4.prems" [simplified]] show ?case by auto
next
  case (5 R e s prefix)
  from recordSet_set [OF "5.prems" [simplified]] show ?case by auto
next
  case (6 R e f prefix)
  from recordSet_set [OF "6.prems" [simplified]] show ?case by auto
next
  case (7 R e es named prefix)
  from recordSet_set [OF "7.prems" [simplified]] show ?case by auto
qed auto

lemma flatten_keys:
  "flattenObject R e v prefix = Inr (res, e')
     \<Longrightarrow> \<forall>(q, w) \<in> set res. q = prefix \<or> (\<exists>sfx. q = prefix @ ''.'' @ sfx)"
  "\<forall>(q, w) \<in> set result. \<exists>sfx. q = prefix @ ''.'' @ sfx
     \<Longrightarrow> flattenEntries R e ps prefix result = Inr (res, e')
     \<Longrightarrow> \<forall>(q, w) \<in> set res. \<exists>sfx. q = prefix @ ''.'' @ sfx"
proof (induction R e v prefix and R e ps prefix result arbitrary: res e' and res e'
    rule: flattenObject_flattenEntries.induct)
  case (11 R e key v rest prefix result)
  let ?full = "prefix @ ''.'' @ key"
  let ?step = "if isObjectNotArray v then
       (case flattenObject R e v ?full of
          Inl x \<Rightarrow> Inl x
        | Inr (sub, e1) \<Rightarrow> objectAssign R e1 result sub)
     else recordSet R e result ?full v"
  define step where "step = ?step"
  have "flattenEntries R e ((key, v) # rest) prefix result =
     (case step of Inl x \<Rightarrow> Inl x | Inr (result', e') \<Rightarrow> flattenEntries R e' rest prefix result')"
    unfolding step_def by (rule flattenEntries_Cons)
  with "11.prems"(2) obtain r1 e1 where "step = Inr (r1, e1)"
    and rest: "flattenEntries R e1 rest prefix r1 = Inr (res, e')"
    by (cases step) auto
  then have step: "?step = Inr (r1, e1)" by (simp only: step_def)
  have here: "\<exists>sfx. ?full = prefix @ ''.'' @ sfx" by blast
  have "\<forall>(q, w) \<in> set r1. \<exists>sfx. q = prefix @ ''.'' @ sfx"
  proof (cases "isObjectNotArray v")
    case True
    with step have "(case flattenObject R e v ?full of
          Inl x \<Rightarrow> Inl x
        | Inr (sub, e1) \<Rightarrow> objectAssign R e1 result sub) = Inr (r1, e1)"
      by (simp only: if_True)
    then obtain sub e0 where sub: "flattenObject R e v ?full = Inr (sub, e0)"
      and asg: "objectAssign R e0 result sub = Inr (r1, e1)"
      by (cases "flattenObject R e v ?full") (auto simp del: append.simps)
    have below: "\<exists>sfx. q = prefix @ ''.'' @ sfx" if "(q, w) \<in> set sub" for q w
    proof -
      from "11.IH"(1) [OF refl True sub] that
      have "q = ?full \<or> (\<exists>sfx. q = ?full @ ''.'' @ sfx)" by auto
      then show ?thesis
      proof
        assume "q = ?full"
        then show ?thesis by blast
      next
        assume "\<exists>sfx. q = ?full @ ''.'' @ sfx"
        then obtain sfx where "q = prefix @ ''.'' @ (key @ ''.'' @ sfx)" by auto
        then show ?thesis by blast
      qed
    qed
    with "11.prems"(1) objectAssign_set [OF asg] show ?thesis by blast
  next
    case False
    with step have "recordSet R e result ?full v = Inr (r1, e1)" by (simp only: if_False)
    from recordSet_set [OF this] here "11.prems"(1) show ?thesis by blast
  qed
  with "11.IH"(2) [OF refl step refl _ rest] show ?case by blast
next
  case (3 R e b prefix)
  from recordSet_set [OF "3.prems" [simplified]] show ?case by auto
next
  case (4 R e n prefix)
  from recordSet_set [OF "4.prems" [simplified]] show ?case by auto
next
  case (5 R e s prefix)
  from recordSet_set [OF "5.prems" [simplified]] show ?case by auto
next
  case (6 R e f prefix)
  from recordSet_set [OF "6.prems" [simplified]] show ?case by auto
next
  case (7 R e es named prefix)
  from recordSet_set [OF "7.prems" [simplified]] show ?case by auto
qed auto

lemma flatten_returns:
  "isObjectNotArray v \<Longrightarrow> \<forall>sfx base w. chainSet R e base (prefix @ ''.'' @ sfx) w = NoObstacle
     \<Longrightarrow> \<exists>res. flattenObject R e v prefix = Inr (res, e)"
  "\<forall>sfx base w. chainSet R e base (prefix @ ''.'' @ sfx) w = NoObstacle
     \<Longrightarrow> \<exists>res. flattenEntries R e ps prefix result = Inr (res, e)"
proof (induction R e v prefix and R e ps prefix result rule: flattenObject_flattenEntries.induct)
  case (11 R e key v rest prefix result)
  let ?full = "prefix @ ''.'' @ key"
  let ?step = "if isObjectNotArray v then
       (case flattenObject R e v ?full of
          Inl x \<Rightarrow> Inl x
        | Inr (sub, e1) \<Rightarrow> objectAssign R e1 result sub)
     else recordSet R e result ?full v"
  note free = "11.prems"
  have "\<exists>r1. ?step = Inr (r1, e)"
  proof (cases "isObjectNotArray v")
    case True
    have "\<forall>sfx base w. chainSet R e base (?full @ ''.'' @ sfx) w = NoObstacle"
    proof (intro allI)
      fix sfx base w
      from free have "chainSet R e base (prefix @ ''.'' @ (key @ ''.'' @ sfx)) w = NoObstacle"
        by blast
      then show "chainSet R e base (?full @ ''.'' @ sfx) w = NoObstacle" by simp
    qed
    from "11.IH"(1) [OF refl True True this]
    obtain sub where sub: "flattenObject R e v ?full = Inr (sub, e)" by blast
    have "\<forall>(k, w) \<in> set sub. \<forall>base u. chainSet R e base k u = NoObstacle"
    proof -
      have "\<forall>base u. chainSet R e base q u = NoObstacle" if "(q, w) \<in> set sub" for q w
      proof -
        from flatten_keys(1) [OF sub] that
        have "q = ?full \<or> (\<exists>sfx. q = ?full @ ''.'' @ sfx)" by auto
        then obtain sfx where "q = prefix @ ''.'' @ sfx" by auto
        with free show ?thesis by simp
      qed
      then show ?thesis by auto
    qed
    then have "objectAssign R e result sub = Inr (foldl (\<lambda>t (k, w). setOwn t k w) result sub, e)"
      by (rule objectAssign_free)
    with True sub show ?thesis by (simp del: append.simps)
  next
    case False
    from free have "chainSet R e (Obj result) ?full v = NoObstacle" by blast
    then have "recordSet R e result ?full v = Inr (setOwn result ?full v, e)" by (rule recordSet_free)
    with False show ?thesis by (simp del: append.simps)
  qed
  then obtain r1 where step: "?step = Inr (r1, e)" ..
  from "11.IH"(2) [OF refl step refl free]
  obtain res where "flattenEntries R e rest prefix r1 = Inr (res, e)" ..
  with step show ?case by (simp only: flattenEntries_Cons sum.case prod.case) blast
qed auto

text \<open>
  C8. \<open>flattenObject\<close> returns the empty record for \<open>null\<close>, \<open>undefined\<close>, the empty
  object and a built-in object. Any other value that is not a plain object, an array included, is assigned
  whole to the key \<open>prefix\<close> of an empty record: the result is the single entry, unless
  the chain takes or refuses that key (assigning to \<open>__proto__\<close> leaves the record empty).
  The fields of a plain object are taken in order: a field that holds a plain object
  contributes the flattening of that object under \<open>prefix.field\<close>, merged in by
  assignment; any other field is assigned whole to \<open>prefix.field\<close>. Where the chain does
  not stand in the way, an assignment sets the entry, the flattening of an object returns
  and the environment is as before. No entry of a result holds a plain object, and every
  key of a flattened object extends the prefix by a dot.
\<close>

theorem flattenObject_behaviour:
  "flattenObject R e Undefined prefix = Inr ([], e) \<and> flattenObject R e Null prefix = Inr ([], e)
   \<and> flattenObject R e (Obj []) prefix = Inr ([], e)
   \<and> flattenObject R e (Builtin b) prefix = Inr ([], e)
   \<and> (v \<noteq> Undefined \<and> v \<noteq> Null \<and> \<not> isObjectNotArray v \<longrightarrow>
        flattenObject R e v prefix =
          (case chainSet R e (Obj []) prefix v of
             NoObstacle \<Rightarrow> Inr ([(prefix, v)], e)
           | Throws x \<Rightarrow> Inl x
           | Taken e' \<Rightarrow> Inr ([], e')))
   \<and> flattenObject R e (Obj (ps @ [(key, v)])) prefix =
       (case flattenObject R e (Obj ps) prefix of
          Inl x \<Rightarrow> Inl x
        | Inr (result, e1) \<Rightarrow>
            (if isObjectNotArray v then
               (case flattenObject R e1 v (prefix @ ''.'' @ key) of
                  Inl x \<Rightarrow> Inl x
                | Inr (sub, e2) \<Rightarrow> objectAssign R e2 result sub)
             else recordSet R e1 result (prefix @ ''.'' @ key) v))
   \<and> (chainSet R e (Obj target) k v = NoObstacle
        \<longrightarrow> recordSet R e target k v = Inr (setOwn target k v, e))
   \<and> ((\<forall>(k, w) \<in> set src. \<forall>base u. chainSet R e base k u = NoObstacle)
        \<longrightarrow> objectAssign R e target src = Inr (foldl (\<lambda>t (k, w). setOwn t k w) target src, e))
   \<and> ((\<forall>sfx base w. chainSet R e base (prefix @ ''.'' @ sfx) w = NoObstacle)
        \<longrightarrow> (\<exists>result. flattenObject R e (Obj ps) prefix = Inr (result, e)))
   \<and> (flattenObject R e v prefix = Inr (res, e') \<longrightarrow> (\<forall>(q, w) \<in> set res. \<not> isObjectNotArray w))
   \<and> (flattenObject R e (Obj ps) prefix = Inr (res, e')
        \<longrightarrow> (\<forall>(q, w) \<in> set res. \<exists>sfx. q = prefix @ ''.'' @ sfx))"
proof (intro conjI impI)
  assume "v \<noteq> Undefined \<and> v \<noteq> Null \<and> \<not> isObjectNotArray v"
  then show "flattenObject R e v prefix =
          (case chainSet R e (Obj []) prefix v of
             NoObstacle \<Rightarrow> Inr ([(prefix, v)], e)
           | Throws x \<Rightarrow> Inl x
           | Taken e' \<Rightarrow> Inr ([], e'))"
    by (cases v) (auto simp: recordSet_def split: chainWrite.splits)
next
  show "flattenObject R e (Obj (ps @ [(key, v)])) prefix =
       (case flattenObject R e (Obj ps) prefix of
          Inl x \<Rightarrow> Inl x
        | Inr (result, e1) \<Rightarrow>
            (if isObjectNotArray v then
               (case flattenObject R e1 v (prefix @ ''.'' @ key) of
                  Inl x \<Rightarrow> Inl x
                | Inr (sub, e2) \<Rightarrow> objectAssign R e2 result sub)
             else recordSet R e1 result (prefix @ ''.'' @ key) v))"
    by (simp add: flattenEntries_snoc)
next
  assume "chainSet R e (Obj target) k v = NoObstacle"
  then show "recordSet R e target k v = Inr (setOwn target k v, e)"
    by (rule recordSet_free)
next
  assume "\<forall>(k, w) \<in> set src. \<forall>base u. chainSet R e base k u = NoObstacle"
  then show "objectAssign R e target src = Inr (foldl (\<lambda>t (k, w). setOwn t k w) target src, e)"
    by (rule objectAssign_free)
next
  assume "\<forall>sfx base w. chainSet R e base (prefix @ ''.'' @ sfx) w = NoObstacle"
  then show "\<exists>result. flattenObject R e (Obj ps) prefix = Inr (result, e)"
    using flatten_returns(2) [of R e prefix ps "[]"] by simp
next
  assume "flattenObject R e v prefix = Inr (res, e')"
  then show "\<forall>(q, w) \<in> set res. \<not> isObjectNotArray w"
    by (rule flatten_leaves(1))
next
  assume "flattenObject R e (Obj ps) prefix = Inr (res, e')"
  then have "flattenEntries R e ps prefix [] = Inr (res, e')" by simp
  then show "\<forall>(q, w) \<in> set res. \<exists>sfx. q = prefix @ ''.'' @ sfx"
    using flatten_keys(2) [of "[]" prefix R e ps res e'] by simp
qed simp_all

theorem flattenObject_behaviour_witness:
  "Arr [Some (Num 1), Some (Num 2), Some (Num 3)] [] \<noteq> Undefined
   \<and> Arr [Some (Num 1), Some (Num 2), Some (Num 3)] [] \<noteq> Null
   \<and> \<not> isObjectNotArray (Arr [Some (Num 1), Some (Num 2), Some (Num 3)] [])
   \<and> flattenObject sampleRealm [] (Arr [Some (Num 1), Some (Num 2), Some (Num 3)] []) ''data.items''
       = Inr ([(''data.items'', Arr [Some (Num 1), Some (Num 2), Some (Num 3)] [])], [])
   \<and> flattenObject sampleRealm [] (Obj [(''items'', Arr [Some (Num 1), Some (Num 2), Some (Num 3)] [])]) ''data''
       = Inr ([(''data.items'', Arr [Some (Num 1), Some (Num 2), Some (Num 3)] [])], [])
   \<and> flattenObject sampleRealm [] (Obj [(''user'', Obj [(''name'', Str ''John'')])]) ''data''
       = Inr ([(''data.user.name'', Str ''John'')], [])
   \<and> \<not> isObjectNotArray (Str ''John'')
   \<and> ''data.user.name'' = ''data'' @ ''.'' @ ''user.name''
   \<and> Num 5 \<noteq> Undefined \<and> Num 5 \<noteq> Null \<and> \<not> isObjectNotArray (Num 5)
   \<and> flattenObject sampleRealm [] (Num 5) ''__proto__'' = Inr ([], [])
   \<and> objectAssign sampleRealm [] [(''data.a'', Num 1)] [(''data.b'', Num 2), (''data.a'', Num 3)]
       = Inr ([(''data.a'', Num 3), (''data.b'', Num 2)], [])"
proof -
  let ?R = "sampleRealm" and ?e = "[] :: sampleEnv"
  let ?items = "Arr [Some (Num 1), Some (Num 2), Some (Num 3)] []"
  let ?user = "Obj [(''name'', Str ''John'')]"
  have hyp: "?items \<noteq> Undefined \<and> ?items \<noteq> Null \<and> \<not> isObjectNotArray ?items"
    and hyp5: "Num 5 \<noteq> Undefined \<and> Num 5 \<noteq> Null \<and> \<not> isObjectNotArray (Num 5)"
    by simp_all
  have free: "\<forall>sfx base w. chainSet ?R ?e base (''data'' @ ''.'' @ sfx) w = NoObstacle"
    by (simp add: sampleRealm_def)
  have free1: "chainSet ?R ?e (Obj []) (''data'' @ ''.'' @ ''items'') ?items = NoObstacle"
    by (simp add: sampleRealm_def)
  from flattenObject_behaviour [where R = ?R and e = ?e and v = ?items and prefix = "''data.items''"] hyp
  have "flattenObject ?R ?e ?items ''data.items'' =
          (case chainSet ?R ?e (Obj []) ''data.items'' ?items of
             NoObstacle \<Rightarrow> Inr ([(''data.items'', ?items)], ?e)
           | Throws x \<Rightarrow> Inl x
           | Taken e' \<Rightarrow> Inr ([], e'))"
    by blast
  then have whole: "flattenObject ?R ?e ?items ''data.items'' = Inr ([(''data.items'', ?items)], [])"
    by (simp add: sampleRealm_def)
  from flattenObject_behaviour [where R = ?R and e = ?e and v = "Num 5" and prefix = "''__proto__''"] hyp5
  have "flattenObject ?R ?e (Num 5) ''__proto__'' =
          (case chainSet ?R ?e (Obj []) ''__proto__'' (Num 5) of
             NoObstacle \<Rightarrow> Inr ([(''__proto__'', Num 5)], ?e)
           | Throws x \<Rightarrow> Inl x
           | Taken e' \<Rightarrow> Inr ([], e'))"
    by blast
  then have proto: "flattenObject ?R ?e (Num 5) ''__proto__'' = Inr ([], [])"
    by (simp add: sampleRealm_def)
  note inst = flattenObject_behaviour [where R = ?R and e = ?e and v = ?items and prefix = "''data''"
      and ps = "[]" and key = "''items''" and target = "[]" and k = "''data'' @ ''.'' @ ''items''"]
  from inst free1 have "recordSet ?R ?e [] (''data'' @ ''.'' @ ''items'') ?items
      = Inr (setOwn [] (''data'' @ ''.'' @ ''items'') ?items, ?e)"
    by blast
  moreover from inst have "flattenObject ?R ?e (Obj ([] @ [(''items'', ?items)])) ''data'' =
       (case flattenObject ?R ?e (Obj []) ''data'' of
          Inl x \<Rightarrow> Inl x
        | Inr (result, e1) \<Rightarrow>
            (if isObjectNotArray ?items then
               (case flattenObject ?R e1 ?items (''data'' @ ''.'' @ ''items'') of
                  Inl x \<Rightarrow> Inl x
                | Inr (sub, e2) \<Rightarrow> objectAssign ?R e2 result sub)
             else recordSet ?R e1 result (''data'' @ ''.'' @ ''items'') ?items))"
    by blast
  ultimately have fields: "flattenObject ?R ?e (Obj [(''items'', ?items)]) ''data''
      = Inr ([(''data.items'', ?items)], [])"
    by (simp add: setOwn_def)
  from flattenObject_behaviour [where R = ?R and e = ?e and prefix = "''data''"
      and ps = "[(''user'', ?user)]"] free
  obtain result where ret: "flattenObject ?R ?e (Obj [(''user'', ?user)]) ''data'' = Inr (result, ?e)"
    by blast
  have nested: "flattenObject ?R ?e (Obj [(''user'', ?user)]) ''data'' = Inr ([(''data.user.name'', Str ''John'')], [])"
    by (simp add: Let_def recordSet_def sampleRealm_def)
  from flattenObject_behaviour [where R = ?R and e = ?e and prefix = "''data''" and v = "Obj [(''user'', ?user)]"
      and ps = "[(''user'', ?user)]" and res = "[(''data.user.name'', Str ''John'')]" and e' = "[]"] nested
  have "(\<forall>(q, w) \<in> set [(''data.user.name'', Str ''John'')]. \<not> isObjectNotArray w)
      \<and> (\<forall>(q, w) \<in> set [(''data.user.name'', Str ''John'')]. \<exists>sfx. q = ''data'' @ ''.'' @ sfx)"
    by blast
  then have leaf: "\<not> isObjectNotArray (Str ''John'')" by simp
  have key: "''data.user.name'' = ''data'' @ ''.'' @ ''user.name''" by simp
  have freeKeys: "\<forall>(k, w) \<in> set [(''data.b'', Num 2), (''data.a'', Num 3)].
      \<forall>base u. chainSet ?R ?e base k u = NoObstacle"
    by (simp add: sampleRealm_def)
  from flattenObject_behaviour [where R = ?R and e = ?e and target = "[(''data.a'', Num 1)]"
      and src = "[(''data.b'', Num 2), (''data.a'', Num 3)]"] freeKeys
  have "objectAssign ?R ?e [(''data.a'', Num 1)] [(''data.b'', Num 2), (''data.a'', Num 3)]
      = Inr (foldl (\<lambda>t (k, w). setOwn t k w) [(''data.a'', Num 1)]
               [(''data.b'', Num 2), (''data.a'', Num 3)], ?e)"
    by blast
  then have merged: "objectAssign ?R ?e [(''data.a'', Num 1)] [(''data.b'', Num 2), (''data.a'', Num 3)]
      = Inr ([(''data.a'', Num 3), (''data.b'', Num 2)], [])"
    by (simp add: setOwn_def isArrayIndex_def isDigits_def isDigit_def)
  from hyp hyp5 whole proto fields nested leaf key merged show ?thesis by blast
qed

theorem flattenObject_undefined_counterexample:
  "flattenObject sampleRealm [] Undefined ''data'' = Inr ([], [])
   \<and> flattenObject sampleRealm [] Undefined ''data'' \<noteq> Inr ([(''data'', Undefined)], [])"
  by simp

section \<open>Properties of the bridge\<close>

subsection \<open>Namespaces\<close>

lemma parseStep_result:
  "fst (parseStep st c) = fst st \<or> (\<exists>current. current \<noteq> [] \<and> fst (parseStep st c) = fst st @ [current])"
  by (cases st) (simp split: option.splits)

lemma parseLoop_keeps_result: "\<exists>ys. fst (foldl parseStep st cs) = fst st @ ys"
proof (induction cs arbitrary: st)
  case Nil
  show ?case by simp
next
  case (Cons c cs)
  from Cons.IH [of "parseStep st c"] obtain ys where
    ys: "fst (foldl parseStep (parseStep st c) cs) = fst (parseStep st c) @ ys" by blast
  from parseStep_result [of st c] obtain zs where "fst (parseStep st c) = fst st @ zs"
    by auto
  with ys show ?case by simp
qed

lemma parseEnd_keeps_result: "\<exists>ys. parseEnd st = fst st @ ys"
  by (cases st) simp

lemma startsWith_append: "startsWith p pre \<Longrightarrow> p = pre @ drop (length pre) p"
  unfolding startsWith_def by (metis append_take_drop_id)

lemma firstSegment_data: "startsWith p ''data.'' \<Longrightarrow> firstSegment p = Some ''data''"
proof -
  assume "startsWith p ''data.''"
  then obtain rest where p: "p = ''data.'' @ rest"
    using startsWith_append by blast
  let ?st = "foldl parseStep ([''data''], [], False, None) rest"
  have "parsePath p = parseEnd ?st"
    unfolding p by (simp add: parsePath_def)
  moreover obtain ys where "fst ?st = [''data''] @ ys"
    using parseLoop_keeps_result [of "([''data''], [], False, None)" rest] by auto
  moreover obtain zs where "parseEnd ?st = fst ?st @ zs"
    using parseEnd_keeps_result by blast
  ultimately show ?thesis by (simp add: firstSegment_def)
qed

lemma firstSegment_state: "startsWith p ''state.'' \<Longrightarrow> firstSegment p = Some ''state''"
proof -
  assume "startsWith p ''state.''"
  then obtain rest where p: "p = ''state.'' @ rest"
    using startsWith_append by blast
  let ?st = "foldl parseStep ([''state''], [], False, None) rest"
  have "parsePath p = parseEnd ?st"
    unfolding p by (simp add: parsePath_def)
  moreover obtain ys where "fst ?st = [''state''] @ ys"
    using parseLoop_keeps_result [of "([''state''], [], False, None)" rest] by auto
  moreover obtain zs where "parseEnd ?st = fst ?st @ zs"
    using parseEnd_keeps_result by blast
  ultimately show ?thesis by (simp add: firstSegment_def)
qed

lemma data_not_state: "startsWith p ''state.'' \<Longrightarrow> \<not> startsWith p ''data.''"
  by (cases p) (auto simp: startsWith_def)

subsection \<open>What a push writes\<close>

lemma partitionPaths_filter:
  "partitionPaths ps dataPaths statePaths =
     (dataPaths @ filter isDataPath ps, statePaths @ filter isStatePath ps)"
  by (induction ps arbitrary: dataPaths statePaths)
     (auto simp: isDataPath_def isStatePath_def data_not_state)

lemma pushToExternal_filter:
  "pushToExternal act read paths =
     (if filter isDataPath paths = [] then []
      else if hasSetManyData act then [SetManyData (collectUpdates read (filter isDataPath paths) [])]
      else map (\<lambda>p. SetData p (read p)) (filter isDataPath paths))
     @
     (if filter isStatePath paths = [] then []
      else if hasSetManyState act then [SetManyState (collectUpdates read (filter isStatePath paths) [])]
      else map (\<lambda>p. SetState p (read p)) (filter isStatePath paths))"
  by (simp add: pushToExternal_def partitionPaths_filter)

lemma in_replaceOwn_same: "hasOwn ps k \<Longrightarrow> (k, v) \<in> set (replaceOwn ps k v)"
  by (induction ps) auto

lemma in_replaceOwn_other: "(k', v') \<in> set ps \<Longrightarrow> k' \<noteq> k \<Longrightarrow> (k', v') \<in> set (replaceOwn ps k v)"
  by (induction ps) auto

lemma in_setOwn_same: "(k, v) \<in> set (setOwn ps k v)"
  by (simp add: setOwn_def in_replaceOwn_same set_insertOwn)

lemma in_setOwn_other: "(k', v') \<in> set ps \<Longrightarrow> k' \<noteq> k \<Longrightarrow> (k', v') \<in> set (setOwn ps k v)"
  by (simp add: setOwn_def in_replaceOwn_other set_insertOwn)

lemma collectUpdates_sound:
  "(\<forall>(k, v) \<in> set updates. v = read k \<and> k \<in> S) \<Longrightarrow> set ps \<subseteq> S
     \<Longrightarrow> \<forall>(k, v) \<in> set (collectUpdates read ps updates). v = read k \<and> k \<in> S"
proof (induction ps arbitrary: updates)
  case Nil
  then show ?case by simp
next
  case (Cons p ps)
  have "\<forall>(k, v) \<in> set (setOwn updates p (read p)). v = read k \<and> k \<in> S"
    using Cons.prems set_setOwn [of updates p "read p"] by auto
  with Cons.IH [of "setOwn updates p (read p)"] Cons.prems(2) show ?case by simp
qed

lemma collectUpdates_complete:
  "(\<forall>(k, v) \<in> set updates. v = read k) \<Longrightarrow> k \<in> set ps \<or> (k, read k) \<in> set updates
     \<Longrightarrow> (k, read k) \<in> set (collectUpdates read ps updates)"
proof (induction ps arbitrary: updates)
  case Nil
  then show ?case by simp
next
  case (Cons p ps)
  have inv: "\<forall>(k, v) \<in> set (setOwn updates p (read p)). v = read k"
    using Cons.prems(1) set_setOwn [of updates p "read p"] by auto
  have "k \<in> set ps \<or> (k, read k) \<in> set (setOwn updates p (read p))"
  proof (cases "k = p")
    case True
    then show ?thesis by (simp add: in_setOwn_same)
  next
    case False
    with Cons.prems(2) show ?thesis by (auto simp: in_setOwn_other)
  qed
  with Cons.IH [OF inv] show ?case by simp
qed

lemma pushToExternal_sound:
  assumes "c \<in> set (pushToExternal act read paths)" and "(p, v) \<in> set (writes c)"
  shows "v = read p \<and> p \<in> set paths \<and> (isDataPath p \<or> isStatePath p)"
proof -
  let ?dp = "filter isDataPath paths" and ?sp = "filter isStatePath paths"
  have d: "\<forall>(k, v) \<in> set (collectUpdates read ?dp []).
      v = read k \<and> k \<in> {p \<in> set paths. isDataPath p \<or> isStatePath p}"
    by (rule collectUpdates_sound) auto
  have s: "\<forall>(k, v) \<in> set (collectUpdates read ?sp []).
      v = read k \<and> k \<in> {p \<in> set paths. isDataPath p \<or> isStatePath p}"
    by (rule collectUpdates_sound) auto
  from assms(1) have "c = SetManyData (collectUpdates read ?dp []) \<or> c \<in> (\<lambda>p. SetData p (read p)) ` set ?dp
      \<or> c = SetManyState (collectUpdates read ?sp []) \<or> c \<in> (\<lambda>p. SetState p (read p)) ` set ?sp"
    unfolding pushToExternal_filter by (auto split: if_splits)
  then consider "c = SetManyData (collectUpdates read ?dp [])" | q where "q \<in> set ?dp" "c = SetData q (read q)"
    | "c = SetManyState (collectUpdates read ?sp [])" | q where "q \<in> set ?sp" "c = SetState q (read q)"
    by blast
  then show ?thesis
  proof cases
    case 1
    with assms(2) d show ?thesis by auto
  next
    case 2
    with assms(2) show ?thesis by auto
  next
    case 3
    with assms(2) s show ?thesis by auto
  next
    case 4
    with assms(2) show ?thesis by auto
  qed
qed

lemma pushToExternal_complete:
  assumes "p \<in> set paths" and "isDataPath p \<or> isStatePath p"
  shows "\<exists>c \<in> set (pushToExternal act read paths). (p, read p) \<in> set (writes c)"
proof -
  let ?dp = "filter isDataPath paths" and ?sp = "filter isStatePath paths"
  have "isDataPath p \<or> isStatePath p" using assms(2) .
  then show ?thesis
  proof
    assume dp: "isDataPath p"
    then have mem: "p \<in> set ?dp" using assms(1) by simp
    then have ne: "?dp \<noteq> []" by (metis empty_iff list.set(1))
    have upd: "(p, read p) \<in> set (collectUpdates read ?dp [])"
      by (rule collectUpdates_complete) (use mem in auto)
    show ?thesis
    proof (cases "hasSetManyData act")
      case True
      with ne have "SetManyData (collectUpdates read ?dp []) \<in> set (pushToExternal act read paths)"
        unfolding pushToExternal_filter by simp
      with upd show ?thesis by force
    next
      case False
      with ne mem have "SetData p (read p) \<in> set (pushToExternal act read paths)"
        unfolding pushToExternal_filter by simp
      then show ?thesis by force
    qed
  next
    assume sp: "isStatePath p"
    then have mem: "p \<in> set ?sp" using assms(1) by simp
    then have ne: "?sp \<noteq> []" by (metis empty_iff list.set(1))
    have upd: "(p, read p) \<in> set (collectUpdates read ?sp [])"
      by (rule collectUpdates_complete) (use mem in auto)
    show ?thesis
    proof (cases "hasSetManyState act")
      case True
      with ne have "SetManyState (collectUpdates read ?sp []) \<in> set (pushToExternal act read paths)"
        unfolding pushToExternal_filter by simp
      with upd show ?thesis by force
    next
      case False
      with ne mem have "SetState p (read p) \<in> set (pushToExternal act read paths)"
        unfolding pushToExternal_filter by simp
      then show ?thesis by force
    qed
  qed
qed

subsection \<open>Timers\<close>

lemma schedulePush_debounced:
  assumes "0 < debounceMsOf config"
  shows "schedulePush config paths w =
     w\<lparr>pendingPaths := foldl setAdd (pendingPaths w) paths,
       timers := filter (\<lambda>(i, due). Some i \<noteq> syncTimeoutId w) (timers w)
                   @ [(nextTimer w, clock w + hostDelay (debounceMsOf config))],
       nextTimer := Suc (nextTimer w),
       syncTimeoutId := Some (nextTimer w)\<rparr>"
proof (cases "syncTimeoutId w")
  case None
  with assms show ?thesis
    by (simp add: schedulePush_def setTimeout_def Let_def)
next
  case (Some h)
  have "(\<lambda>(i, due). i \<noteq> h) = (\<lambda>(i, due). h \<noteq> i)" by auto
  with Some assms show ?thesis
    by (simp add: schedulePush_def setTimeout_def clearTimeout_def Let_def)
qed


lemma elapse_due:
  assumes "timers w = [(h, due)]" and "due \<le> clock w + n" and "clock w \<le> due" and "\<not> isDisposed w"
  shows "elapse config n w =
     w\<lparr>clock := clock w + n, timers := [], pendingPaths := [], syncTimeoutId := None,
       pushed := pushed w @
         [(due, pushToExternal (actuator config) (runtime_get (runtime config) (runtimeState w))
                  (pendingPaths w))]\<rparr>"
  using assms by (simp add: elapse_def fireTimer_def flushPush_def pushNow_def Let_def max_def)

lemma atRest_timers:
  assumes "atRest w"
  shows "filter (\<lambda>(i, due). Some i \<noteq> syncTimeoutId w) (timers w) = []"
proof (cases "syncTimeoutId w")
  case None
  with assms show ?thesis by (simp add: atRest_def)
next
  case (Some h)
  with assms obtain t where "timers w = [t]" "fst t = h"
    by (cases "timers w") (auto simp: atRest_def)
  with Some show ?thesis by (cases t) simp
qed

lemma notify_rearms:
  assumes "atRest w" and "0 < debounceMsOf config" and "autoSyncOf config"
  shows "onRuntimeChange config snapshot ps w =
     w\<lparr>pendingPaths := foldl setAdd (pendingPaths w) ps,
       timers := [(nextTimer w, clock w + hostDelay (debounceMsOf config))],
       nextTimer := Suc (nextTimer w),
       syncTimeoutId := Some (nextTimer w),
       notified := notified w @ map (\<lambda>l. (l, snapshot, ps)) (listeners w)\<rparr>"
proof -
  from assms(1) have "\<not> isDisposed w" by (simp add: atRest_def)
  then show ?thesis
    using assms(2,3) atRest_timers [OF assms(1)]
    by (simp add: onRuntimeChange_def schedulePush_debounced Let_def)
qed






subsection \<open>After disposal\<close>

text \<open>
  C1. \<open>dispose\<close> leaves the bridge disposed. On a disposed bridge \<open>get\<close>, \<open>capture\<close>,
  \<open>sync\<close> and \<open>getFieldPolicy\<close> throw the error \<open>Bridge is disposed\<close>, and \<open>execute\<close>,
  for every command, returns a promise fulfilled with an error result of code
  \<open>DISPOSED_ERROR\<close>; none of them changes anything.
\<close>

theorem disposed_two_tiers:
  "isDisposed (dispose w0)
   \<and> (isDisposed w \<longrightarrow>
        get config p w = Inl (Error ''Bridge is disposed'')
      \<and> capture config w = (Inl (Error ''Bridge is disposed''), w)
      \<and> sync config w = (Inl (Error ''Bridge is disposed''), w)
      \<and> getFieldPolicy config p w = Inl (Error ''Bridge is disposed'')
      \<and> execute config command w
          = (Fulfilled (Err (bridgeError DISPOSED_ERROR ''Bridge is disposed'' None None)), w)
      \<and> error_code (bridgeError DISPOSED_ERROR ''Bridge is disposed'' None None) = DISPOSED_ERROR)"
  by (simp add: dispose_def clearTimeout_def get_def capture_def sync_def getFieldPolicy_def execute_def
      assertNotDisposed_def bridgeError_def Let_def split: option.splits)

theorem disposed_two_tiers_witness:
  "isDisposed (dispose (createBridge (exampleConfig True 100) [] 0))
   \<and> get (exampleConfig True 100) ''data.name'' (dispose (createBridge (exampleConfig True 100) [] 0))
       = Inl (Error ''Bridge is disposed'')
   \<and> fst (execute (exampleConfig True 100) (SET_VALUE ''data.name'' (Str ''John''))
             (dispose (createBridge (exampleConfig True 100) [] 0)))
       = Fulfilled (Err (bridgeError DISPOSED_ERROR ''Bridge is disposed'' None None))"
  using disposed_two_tiers [of "createBridge (exampleConfig True 100) [] 0"
      "dispose (createBridge (exampleConfig True 100) [] 0)" "exampleConfig True 100" "''data.name''"
      "SET_VALUE ''data.name'' (Str ''John'')"]
  by simp

text \<open>
  C10. On a disposed bridge \<open>subscribe\<close> and \<open>isActionAvailable\<close> throw the error
  \<open>Bridge is disposed\<close> as well; the listener is not registered.
\<close>

theorem disposed_subscribe_isActionAvailable:
  "isDisposed w \<longrightarrow>
     subscribe listener w = (Inl (Error ''Bridge is disposed''), w)
   \<and> isActionAvailable config actionId w = Inl (Error ''Bridge is disposed'')"
proof (intro impI conjI)
  assume d: "isDisposed w"
  then have a: "assertNotDisposed w = Inl (Error ''Bridge is disposed'')"
    by (simp add: assertNotDisposed_def)
  show "subscribe listener w = (Inl (Error ''Bridge is disposed''), w)"
    by (simp add: subscribe_def a)
  show "isActionAvailable config actionId w = Inl (Error ''Bridge is disposed'')"
    by (simp add: isActionAvailable_def a)
qed

theorem disposed_subscribe_isActionAvailable_witness:
  "isDisposed (dispose (createBridge (exampleConfig True 100) [] 0))
   \<and> subscribe 1 (dispose (createBridge (exampleConfig True 100) [] 0))
       = (Inl (Error ''Bridge is disposed''), dispose (createBridge (exampleConfig True 100) [] 0))
   \<and> isActionAvailable (exampleConfig True 100) ''action.submit''
        (dispose (createBridge (exampleConfig True 100) [] 0))
       = Inl (Error ''Bridge is disposed'')"
  using disposed_subscribe_isActionAvailable [of "dispose (createBridge (exampleConfig True 100) [] 0)"
      1 "exampleConfig True 100" "''action.submit''"]
  by (simp add: dispose_def createBridge_def)

subsection \<open>Namespaces and direction\<close>

text \<open>
  C4. A path whose first segment is neither \<open>data\<close> nor \<open>state\<close> is never written to the
  actuator: no call of a push carries it. In the other direction the bridge does not look
  at the namespace: when the adapter reports such a path to a bridge in use, the bridge
  reads it with \<open>getData\<close> and hands the value to \<open>runtime.set\<close>, as for any path outside
  \<open>state\<close>.
\<close>

theorem derived_push_exempt_pull_forwarded:
  "firstSegment p \<notin> {Some ''data'', Some ''state''} \<longrightarrow>
     (\<forall>c \<in> set (pushToExternal act read paths). p \<notin> fst ` set (writes c))
   \<and> (\<not> isDisposed w \<longrightarrow>
        onAdapterChange config [p] w =
          (case runtime_set (runtime config) (runtimeState w) p (getData (adapter config) p) of
             (Inl e, r') \<Rightarrow> (Some e, w\<lparr>runtimeState := r'\<rparr>)
           | (Inr res, r') \<Rightarrow> (None, w\<lparr>runtimeState := r'\<rparr>)))"
proof (intro impI conjI ballI)
  assume ns: "firstSegment p \<notin> {Some ''data'', Some ''state''}"
  then have nd: "\<not> isDataPath p" and nst: "\<not> isStatePath p"
    using firstSegment_data [of p] firstSegment_state [of p]
    by (auto simp: isDataPath_def isStatePath_def)
  {
    fix c assume c: "c \<in> set (pushToExternal act read paths)"
    show "p \<notin> fst ` set (writes c)"
    proof
      assume "p \<in> fst ` set (writes c)"
      then obtain v where "(p, v) \<in> set (writes c)" by auto
      with c have "isDataPath p \<or> isStatePath p"
        using pushToExternal_sound by blast
      with nd nst show False by blast
    qed
  }
  {
    assume "\<not> isDisposed w"
    with nst show "onAdapterChange config [p] w =
          (case runtime_set (runtime config) (runtimeState w) p (getData (adapter config) p) of
             (Inl e, r') \<Rightarrow> (Some e, w\<lparr>runtimeState := r'\<rparr>)
           | (Inr res, r') \<Rightarrow> (None, w\<lparr>runtimeState := r'\<rparr>))"
      by (simp add: onAdapterChange_def isStatePath_def Let_def split: prod.splits sum.splits)
  }
qed

theorem derived_push_exempt_pull_forwarded_witness:
  "firstSegment ''derived.total'' \<notin> {Some ''data'', Some ''state''}
   \<and> pushToExternal \<lparr>hasSetManyData = False, hasSetManyState = False\<rparr>
        (lookupOwn [(''data.name'', Str ''John''), (''derived.total'', Num 7)])
        [''data.name'', ''derived.total'']
       = [SetData ''data.name'' (Str ''John'')]
   \<and> ''derived.total'' \<notin> fst ` set (writes (SetData ''data.name'' (Str ''John'')))
   \<and> \<not> isDisposed (createBridge (exampleConfig True 0) [] 0)
   \<and> snd (onAdapterChange (exampleConfig True 0) [''derived.total''] (createBridge (exampleConfig True 0) [] 0))
       = (createBridge (exampleConfig True 0) [] 0)\<lparr>runtimeState := [(''derived.total'', Num 7)]\<rparr>"
proof -
  let ?act = "\<lparr>hasSetManyData = False, hasSetManyState = False\<rparr>"
  let ?read = "lookupOwn [(''data.name'', Str ''John''), (''derived.total'', Num 7)]"
  let ?paths = "[''data.name'', ''derived.total'']"
  let ?config = "exampleConfig True 0"
  let ?w = "createBridge ?config [] 0"
  have ns: "firstSegment ''derived.total'' \<notin> {Some ''data'', Some ''state''}"
    by (simp add: firstSegment_def parsePath_def)
  have nd: "\<not> isDisposed ?w" by (simp add: createBridge_def)
  have push: "pushToExternal ?act ?read ?paths = [SetData ''data.name'' (Str ''John'')]"
    by (simp add: pushToExternal_def startsWith_def)
  from derived_push_exempt_pull_forwarded [of "''derived.total''" ?act ?read ?paths ?w ?config] ns nd
  have absent: "\<forall>c \<in> set (pushToExternal ?act ?read ?paths). ''derived.total'' \<notin> fst ` set (writes c)"
    and pulled: "onAdapterChange ?config [''derived.total''] ?w =
          (case runtime_set (runtime ?config) (runtimeState ?w) ''derived.total''
                  (getData (adapter ?config) ''derived.total'') of
             (Inl e, r') \<Rightarrow> (Some e, ?w\<lparr>runtimeState := r'\<rparr>)
           | (Inr res, r') \<Rightarrow> (None, ?w\<lparr>runtimeState := r'\<rparr>))"
    by blast+
  from absent push have "''derived.total'' \<notin> fst ` set (writes (SetData ''data.name'' (Str ''John'')))"
    by simp
  moreover from pulled have "snd (onAdapterChange ?config [''derived.total''] ?w)
      = ?w\<lparr>runtimeState := [(''derived.total'', Num 7)]\<rparr>"
    by (simp add: exampleConfig_def flatRuntime_def constAdapter_def setOwn_def createBridge_def)
  ultimately show ?thesis using ns nd push by blast
qed

theorem derived_pull_counterexample:
  "firstSegment ''derived.total'' = Some ''derived''
   \<and> runtimeState (snd (onAdapterChange (exampleConfig True 0) [''derived.total'']
                          (createBridge (exampleConfig True 0) [] 0)))
       = [(''derived.total'', Num 7)]
   \<and> runtime_get (runtime (exampleConfig True 0))
        (runtimeState (snd (onAdapterChange (exampleConfig True 0) [''derived.total'']
                          (createBridge (exampleConfig True 0) [] 0))))
        ''derived.total'' = Num 7"
  by (simp add: firstSegment_def parsePath_def onAdapterChange_def startsWith_def createBridge_def
      exampleConfig_def flatRuntime_def constAdapter_def setOwn_def)

subsection \<open>Flushing\<close>

lemma allPathsOf_namespaces: "p \<in> set (allPathsOf snapshot) \<Longrightarrow> isDataPath p \<or> isStatePath p"
  by (auto simp: allPathsOf_def isDataPath_def isStatePath_def startsWith_def split: if_splits)

lemma flushPush_pushed:
  "\<not> isDisposed w \<Longrightarrow>
   pushed (flushPush config w) = pushed w @
     [(clock w, pushToExternal (actuator config) (runtime_get (runtime config) (runtimeState w))
                  (pendingPaths w))]"
  by (simp add: flushPush_def pushNow_def Let_def)

text \<open>
  C3. Every value that a push hands to the actuator is what \<open>runtime.get\<close> returns for
  its path while the push runs, and every \<open>data\<close> or \<open>state\<close> path of the push is
  written. A partition that is not empty goes to the actuator in one batch call when the
  actuator has the batch method, and in one scalar call per path otherwise. A flush
  pushes the pending paths with the runtime as it is when the flush runs: when the runtime
  changes between the report that armed the timer and the timer's firing, the values
  pushed are those after the change. The timer fires after the delay that the host keeps,
  which is \<open>debounceMs\<close> itself up to \<open>2^31 - 1\<close>.
\<close>

theorem flush_values_and_batching:
  "(\<forall>c \<in> set (pushToExternal act read paths). \<forall>(p, v) \<in> set (writes c). v = read p \<and> p \<in> set paths)
   \<and> (\<forall>p \<in> set paths. isDataPath p \<or> isStatePath p \<longrightarrow>
         (\<exists>c \<in> set (pushToExternal act read paths). (p, read p) \<in> set (writes c)))
   \<and> pushToExternal act read paths =
       (if filter isDataPath paths = [] then []
        else if hasSetManyData act then [SetManyData (collectUpdates read (filter isDataPath paths) [])]
        else map (\<lambda>p. SetData p (read p)) (filter isDataPath paths))
       @
       (if filter isStatePath paths = [] then []
        else if hasSetManyState act then [SetManyState (collectUpdates read (filter isStatePath paths) [])]
        else map (\<lambda>p. SetState p (read p)) (filter isStatePath paths))
   \<and> (\<not> isDisposed w \<longrightarrow>
        pushed (flushPush config w) = pushed w @
          [(clock w, pushToExternal (actuator config) (runtime_get (runtime config) (runtimeState w))
                       (pendingPaths w))])
   \<and> (atRest w \<and> 0 < debounceMsOf config \<and> autoSyncOf config \<and> hostDelay (debounceMsOf config) \<le> n \<longrightarrow>
        pushed (run config [RuntimeNotify ps, RuntimeWrite r, Elapse n] w) = pushed w @
          [(clock w + hostDelay (debounceMsOf config),
            pushToExternal (actuator config) (runtime_get (runtime config) r)
              (foldl setAdd (pendingPaths w) ps))])
   \<and> (0 < debounceMsOf config \<and> debounceMsOf config \<le> 2147483647 \<longrightarrow>
        hostDelay (debounceMsOf config) = nat (debounceMsOf config))"
proof (intro conjI impI)
  show "\<forall>c \<in> set (pushToExternal act read paths). \<forall>(p, v) \<in> set (writes c). v = read p \<and> p \<in> set paths"
    using pushToExternal_sound by blast
next
  show "\<forall>p \<in> set paths. isDataPath p \<or> isStatePath p \<longrightarrow>
         (\<exists>c \<in> set (pushToExternal act read paths). (p, read p) \<in> set (writes c))"
    using pushToExternal_complete by blast
next
  show "pushToExternal act read paths =
       (if filter isDataPath paths = [] then []
        else if hasSetManyData act then [SetManyData (collectUpdates read (filter isDataPath paths) [])]
        else map (\<lambda>p. SetData p (read p)) (filter isDataPath paths))
       @
       (if filter isStatePath paths = [] then []
        else if hasSetManyState act then [SetManyState (collectUpdates read (filter isStatePath paths) [])]
        else map (\<lambda>p. SetState p (read p)) (filter isStatePath paths))"
    by (rule pushToExternal_filter)
next
  assume "\<not> isDisposed w"
  then show "pushed (flushPush config w) = pushed w @
          [(clock w, pushToExternal (actuator config) (runtime_get (runtime config) (runtimeState w))
                       (pendingPaths w))]"
    by (rule flushPush_pushed)
next
  assume a: "atRest w \<and> 0 < debounceMsOf config \<and> autoSyncOf config \<and> hostDelay (debounceMsOf config) \<le> n"
  let ?snap = "runtime_getSnapshot (runtime config) (runtimeState w)"
  let ?w1 = "onRuntimeChange config ?snap ps w"
  let ?w2 = "?w1\<lparr>runtimeState := r\<rparr>"
  have sub: "runtimeUnsubscribe w" and nd: "\<not> isDisposed w"
    using a by (simp_all add: atRest_def)
  have w1: "?w1 = w\<lparr>pendingPaths := foldl setAdd (pendingPaths w) ps,
       timers := [(nextTimer w, clock w + hostDelay (debounceMsOf config))],
       nextTimer := Suc (nextTimer w),
       syncTimeoutId := Some (nextTimer w),
       notified := notified w @ map (\<lambda>l. (l, ?snap, ps)) (listeners w)\<rparr>"
    using a by (simp add: notify_rearms)
  have run: "run config [RuntimeNotify ps, RuntimeWrite r, Elapse n] w = elapse config n ?w2"
    using sub by (simp add: run_def)
  have "elapse config n ?w2 =
     ?w2\<lparr>clock := clock ?w2 + n, timers := [], pendingPaths := [], syncTimeoutId := None,
       pushed := pushed ?w2 @
         [(clock w + hostDelay (debounceMsOf config),
           pushToExternal (actuator config) (runtime_get (runtime config) (runtimeState ?w2))
                  (pendingPaths ?w2))]\<rparr>"
    by (rule elapse_due [where h = "nextTimer w"]) (use a nd in \<open>simp_all add: w1\<close>)
  with run show "pushed (run config [RuntimeNotify ps, RuntimeWrite r, Elapse n] w) = pushed w @
          [(clock w + hostDelay (debounceMsOf config),
            pushToExternal (actuator config) (runtime_get (runtime config) r)
              (foldl setAdd (pendingPaths w) ps))]"
    by (simp add: w1)
next
  assume "0 < debounceMsOf config \<and> debounceMsOf config \<le> 2147483647"
  then show "hostDelay (debounceMsOf config) = nat (debounceMsOf config)"
    by (simp add: hostDelay_def)
qed

theorem flush_values_and_batching_witness:
  "pushToExternal \<lparr>hasSetManyData = True, hasSetManyState = False\<rparr>
      (lookupOwn [(''data.name'', Str ''John''), (''state.loading'', Bool True)])
      [''data.name'', ''state.loading'']
     = [SetManyData [(''data.name'', Str ''John'')], SetState ''state.loading'' (Bool True)]
   \<and> \<not> isDisposed (createBridge (exampleConfig True 100) [(''data.name'', Str ''J'')] 0)
   \<and> atRest (createBridge (exampleConfig True 100) [(''data.name'', Str ''J'')] 0)
   \<and> 0 < debounceMsOf (exampleConfig True 100) \<and> autoSyncOf (exampleConfig True 100)
   \<and> debounceMsOf (exampleConfig True 100) \<le> 2147483647
   \<and> hostDelay (debounceMsOf (exampleConfig True 100)) = 100
   \<and> hostDelay (debounceMsOf (exampleConfig True 100)) \<le> 100
   \<and> pushed (run (exampleConfig True 100)
        [RuntimeNotify [''data.name''], RuntimeWrite [(''data.name'', Str ''John'')], Elapse 100]
        (createBridge (exampleConfig True 100) [(''data.name'', Str ''J'')] 0))
       = [(100, [SetManyData [(''data.name'', Str ''John'')]])]"
proof -
  let ?act = "\<lparr>hasSetManyData = True, hasSetManyState = False\<rparr>"
  let ?read = "lookupOwn [(''data.name'', Str ''John''), (''state.loading'', Bool True)]"
  let ?paths = "[''data.name'', ''state.loading'']"
  let ?config = "exampleConfig True 100"
  let ?w = "createBridge ?config [(''data.name'', Str ''J'')] 0"
  note inst = flush_values_and_batching [of ?act ?read ?paths ?w ?config 100 "[''data.name'']"
      "[(''data.name'', Str ''John'')]"]
  have hyp: "\<not> isDisposed ?w \<and> atRest ?w \<and> 0 < debounceMsOf ?config \<and> autoSyncOf ?config
      \<and> hostDelay (debounceMsOf ?config) \<le> 100"
    by (simp add: debounceMsOf_def autoSyncOf_def syncModeOf_def exampleConfig_def atRest_def
        createBridge_def hostDelay_def)
  from inst have "pushToExternal ?act ?read ?paths =
       (if filter isDataPath ?paths = [] then []
        else if hasSetManyData ?act then [SetManyData (collectUpdates ?read (filter isDataPath ?paths) [])]
        else map (\<lambda>p. SetData p (?read p)) (filter isDataPath ?paths))
       @
       (if filter isStatePath ?paths = [] then []
        else if hasSetManyState ?act then [SetManyState (collectUpdates ?read (filter isStatePath ?paths) [])]
        else map (\<lambda>p. SetState p (?read p)) (filter isStatePath ?paths))"
    by blast
  then have batch: "pushToExternal ?act ?read ?paths =
      [SetManyData [(''data.name'', Str ''John'')], SetState ''state.loading'' (Bool True)]"
    by (simp add: isDataPath_def isStatePath_def startsWith_def setOwn_def)
  from inst hyp have "pushed (run ?config
        [RuntimeNotify [''data.name''], RuntimeWrite [(''data.name'', Str ''John'')], Elapse 100] ?w)
      = pushed ?w @ [(clock ?w + hostDelay (debounceMsOf ?config),
            pushToExternal (actuator ?config) (runtime_get (runtime ?config) [(''data.name'', Str ''John'')])
              (foldl setAdd (pendingPaths ?w) [''data.name'']))]"
    by blast
  then have "pushed (run ?config
        [RuntimeNotify [''data.name''], RuntimeWrite [(''data.name'', Str ''John'')], Elapse 100] ?w)
      = [(100, [SetManyData [(''data.name'', Str ''John'')]])]"
    by (simp add: debounceMsOf_def exampleConfig_def flatRuntime_def createBridge_def
        pushToExternal_def startsWith_def setAdd_def setOwn_def hostDelay_def)
  moreover have range: "0 < debounceMsOf ?config \<and> debounceMsOf ?config \<le> 2147483647"
    by (simp add: debounceMsOf_def exampleConfig_def)
  moreover from inst range have "hostDelay (debounceMsOf ?config) = nat (debounceMsOf ?config)"
    by blast
  then have "hostDelay (debounceMsOf ?config) = 100"
    by (simp add: debounceMsOf_def exampleConfig_def)
  ultimately show ?thesis using batch hyp by blast
qed

lemma digit_chars:
  "char_of (48::nat) = CHR ''0''" "char_of (49::nat) = CHR ''1''" "char_of (50::nat) = CHR ''2''"
  "char_of (51::nat) = CHR ''3''" "char_of (52::nat) = CHR ''4''" "char_of (53::nat) = CHR ''5''"
  "char_of (54::nat) = CHR ''6''" "char_of (55::nat) = CHR ''7''" "char_of (56::nat) = CHR ''8''"
  "char_of (57::nat) = CHR ''9''"
  by code_simp+

lemma digit_cases:
  "d < 10 \<Longrightarrow> d = 0 \<or> d = 1 \<or> d = 2 \<or> d = 3 \<or> d = 4 \<or> d = 5 \<or> d = 6 \<or> d = 7 \<or> d = 8 \<or> d = (9::nat)"
  by arith

lemma isDigit_char_of:
  assumes "d < 10"
  shows "isDigit (char_of (48 + (d::nat)))"
proof -
  from assms have "d = 0 \<or> d = 1 \<or> d = 2 \<or> d = 3 \<or> d = 4 \<or> d = 5 \<or> d = 6 \<or> d = 7 \<or> d = 8 \<or> d = 9"
    by (rule digit_cases)
  then show ?thesis by (elim disjE) (simp_all add: isDigit_def digit_chars)
qed

lemma char_of_zero:
  assumes "d < 10"
  shows "(char_of (48 + (d::nat)) = CHR ''0'') = (d = 0)"
proof -
  from assms have "d = 0 \<or> d = 1 \<or> d = 2 \<or> d = 3 \<or> d = 4 \<or> d = 5 \<or> d = 6 \<or> d = 7 \<or> d = 8 \<or> d = 9"
    by (rule digit_cases)
  then show ?thesis by (elim disjE) (simp_all add: digit_chars)
qed

lemma indexKey_small: "n < 10 \<Longrightarrow> indexKey n = [char_of (48 + n)]"
  by (subst indexKey.simps) simp

lemma indexKey_large: "\<not> n < 10 \<Longrightarrow> indexKey n = indexKey (n div 10) @ [char_of (48 + n mod 10)]"
  by (subst indexKey.simps) simp

lemma decimal_snoc: "decimal (xs @ [c]) = 10 * decimal xs + digitVal c"
  by (simp add: decimal_def)

lemma indexKey_decimal: "decimal (indexKey n) = n"
proof (induction n rule: indexKey.induct)
  case (1 n)
  show ?case
  proof (cases "n < 10")
    case True
    then show ?thesis by (simp add: indexKey_small decimal_def digitVal_def)
  next
    case False
    with 1 show ?thesis by (simp add: indexKey_large decimal_snoc digitVal_def)
  qed
qed

lemma indexKey_digits: "isDigits (indexKey n)"
proof (induction n rule: indexKey.induct)
  case (1 n)
  show ?case
  proof (cases "n < 10")
    case True
    then show ?thesis by (simp add: indexKey_small isDigits_def isDigit_char_of)
  next
    case False
    with 1 show ?thesis by (simp add: indexKey_large isDigits_def isDigit_char_of)
  qed
qed

lemma indexKey_canonical: "indexKey n = ''0'' \<or> hd (indexKey n) \<noteq> CHR ''0''"
proof (induction n rule: indexKey.induct)
  case (1 n)
  show ?case
  proof (cases "n < 10")
    case True
    then show ?thesis by (auto simp: indexKey_small char_of_zero digit_chars)
  next
    case False
    have "indexKey (n div 10) \<noteq> ''0''"
    proof
      assume "indexKey (n div 10) = ''0''"
      then have "decimal (indexKey (n div 10)) = 0" by (simp add: decimal_def digitVal_def)
      with False show False by (simp add: indexKey_decimal)
    qed
    with 1 [OF False] have "hd (indexKey (n div 10)) \<noteq> CHR ''0''" by simp
    moreover have "indexKey (n div 10) \<noteq> []" using indexKey_digits [of "n div 10"] by (simp add: isDigits_def)
    ultimately show ?thesis using False by (simp add: indexKey_large)
  qed
qed

lemma allPathsOf_keys:
  "allPathsOf snapshot =
     map (\<lambda>k. ''data.'' @ k) (objectKeys (snapshot_data snapshot))
     @ map (\<lambda>k. ''state.'' @ k) (objectKeys (snapshot_state snapshot))"
proof -
  have "\<not> isObjectValue v \<Longrightarrow> objectKeys v = []" for v
    by (cases v) simp_all
  then show ?thesis by (simp add: allPathsOf_def)
qed

text \<open>
  C5. On a bridge in use \<open>sync\<close> returns, takes the bridge's timer from the host's queue
  and forgets it, and runs one push, the same \<open>pushToExternal\<close> that a flush runs,
  whatever the pending paths are; they stay as they were. The paths of that push are one
  per top-level key of the runtime's current snapshot: \<open>data.k\<close> for every key \<open>k\<close> of
  \<open>snapshot.data\<close>, then \<open>state.k\<close> for every key of \<open>snapshot.state\<close>. The keys of an
  object are its own properties in order; those of an array are the decimal indices of
  the elements it holds, then its named properties; any other value has none, and each of
  the two parts is looked at on its own. The paths below a key are not listed. Each path
  of the push is written with the value \<open>runtime.get\<close> returns for it, and nothing else
  is written.
\<close>

theorem sync_pushes_snapshot:
  "(\<not> isDisposed w \<longrightarrow>
       fst (sync config w) = Inr ()
     \<and> syncTimeoutId (snd (sync config w)) = None
     \<and> timers (snd (sync config w)) = filter (\<lambda>(i, due). Some i \<noteq> syncTimeoutId w) (timers w)
     \<and> pushed (snd (sync config w)) = pushed w @
          [(clock w, pushToExternal (actuator config) (runtime_get (runtime config) (runtimeState w))
                       (allPathsOf (runtime_getSnapshot (runtime config) (runtimeState w))))]
     \<and> pushed (flushPush config w) = pushed w @
          [(clock w, pushToExternal (actuator config) (runtime_get (runtime config) (runtimeState w))
                       (pendingPaths w))]
     \<and> pendingPaths (snd (sync config w)) = pendingPaths w)
   \<and> allPathsOf snapshot =
       map (\<lambda>k. ''data.'' @ k) (objectKeys (snapshot_data snapshot))
       @ map (\<lambda>k. ''state.'' @ k) (objectKeys (snapshot_state snapshot))
   \<and> objectKeys (Obj ps) = map fst ps
   \<and> objectKeys (Arr es named) =
       map indexKey (filter (\<lambda>i. es ! i \<noteq> None) [0..<length es]) @ map fst named
   \<and> (\<not> isContainer v \<longrightarrow> objectKeys v = [])
   \<and> decimal (indexKey i) = i \<and> isDigits (indexKey i)
   \<and> (indexKey i = ''0'' \<or> hd (indexKey i) \<noteq> CHR ''0'')
   \<and> (\<forall>p \<in> set (allPathsOf snapshot).
        \<exists>c \<in> set (pushToExternal act read (allPathsOf snapshot)). (p, read p) \<in> set (writes c))
   \<and> (\<forall>c \<in> set (pushToExternal act read (allPathsOf snapshot)).
        \<forall>(p, u) \<in> set (writes c). u = read p \<and> p \<in> set (allPathsOf snapshot))"
proof (intro conjI impI)
  assume nd: "\<not> isDisposed w"
  let ?paths = "allPathsOf (runtime_getSnapshot (runtime config) (runtimeState w))"
  have s: "sync config w =
     (Inr (), pushNow config ?paths
        (case syncTimeoutId w of None \<Rightarrow> w
         | Some handle \<Rightarrow> (clearTimeout handle w)\<lparr>syncTimeoutId := None\<rparr>))"
    using nd by (cases "syncTimeoutId w") (simp_all add: sync_def assertNotDisposed_def clearTimeout_def)
  show "fst (sync config w) = Inr ()" by (simp add: s)
  show "syncTimeoutId (snd (sync config w)) = None"
    by (cases "syncTimeoutId w") (simp_all add: s pushNow_def clearTimeout_def)
  show "pushed (snd (sync config w)) = pushed w @
        [(clock w, pushToExternal (actuator config) (runtime_get (runtime config) (runtimeState w)) ?paths)]"
    by (cases "syncTimeoutId w") (simp_all add: s pushNow_def clearTimeout_def)
  show "pendingPaths (snd (sync config w)) = pendingPaths w"
    by (cases "syncTimeoutId w") (simp_all add: s pushNow_def clearTimeout_def)
  show "pushed (flushPush config w) = pushed w @
        [(clock w, pushToExternal (actuator config) (runtime_get (runtime config) (runtimeState w))
                     (pendingPaths w))]"
    using nd by (rule flushPush_pushed)
  show "timers (snd (sync config w)) = filter (\<lambda>(i, due). Some i \<noteq> syncTimeoutId w) (timers w)"
  proof (cases "syncTimeoutId w")
    case None
    then show ?thesis by (simp add: s pushNow_def)
  next
    case (Some h)
    have "(\<lambda>(i, due). i \<noteq> h) = (\<lambda>(i, due). h \<noteq> i)" by auto
    with Some show ?thesis by (simp add: s pushNow_def clearTimeout_def)
  qed
next
  show "allPathsOf snapshot =
       map (\<lambda>k. ''data.'' @ k) (objectKeys (snapshot_data snapshot))
       @ map (\<lambda>k. ''state.'' @ k) (objectKeys (snapshot_state snapshot))"
    by (rule allPathsOf_keys)
next
  show "objectKeys (Obj ps) = map fst ps" by simp
next
  show "objectKeys (Arr es named) =
       map indexKey (filter (\<lambda>i. es ! i \<noteq> None) [0..<length es]) @ map fst named"
    by simp
next
  assume "\<not> isContainer v"
  then show "objectKeys v = []" by (cases v) simp_all
next
  show "decimal (indexKey i) = i" by (rule indexKey_decimal)
next
  show "isDigits (indexKey i)" by (rule indexKey_digits)
next
  show "indexKey i = ''0'' \<or> hd (indexKey i) \<noteq> CHR ''0''" by (rule indexKey_canonical)
next
  show "\<forall>p \<in> set (allPathsOf snapshot).
        \<exists>c \<in> set (pushToExternal act read (allPathsOf snapshot)). (p, read p) \<in> set (writes c)"
    using allPathsOf_namespaces pushToExternal_complete by blast
next
  show "\<forall>c \<in> set (pushToExternal act read (allPathsOf snapshot)).
        \<forall>(p, u) \<in> set (writes c). u = read p \<and> p \<in> set (allPathsOf snapshot)"
    using pushToExternal_sound by blast
qed

theorem sync_pushes_snapshot_witness:
  "\<not> isDisposed (run (exampleConfig False 100) [RuntimeNotify [''data.name'']]
        (createBridge (exampleConfig False 100)
           [(''data.name'', Str ''John''), (''data.age'', Num 30), (''state.loading'', Bool False)] 0))
   \<and> syncTimeoutId (run (exampleConfig False 100) [RuntimeNotify [''data.name'']]
        (createBridge (exampleConfig False 100)
           [(''data.name'', Str ''John''), (''data.age'', Num 30), (''state.loading'', Bool False)] 0))
       = Some 0
   \<and> timers (run (exampleConfig False 100) [RuntimeNotify [''data.name'']]
        (createBridge (exampleConfig False 100)
           [(''data.name'', Str ''John''), (''data.age'', Num 30), (''state.loading'', Bool False)] 0))
       = [(0, 100)]
   \<and> fst (sync (exampleConfig False 100) (run (exampleConfig False 100) [RuntimeNotify [''data.name'']]
        (createBridge (exampleConfig False 100)
           [(''data.name'', Str ''John''), (''data.age'', Num 30), (''state.loading'', Bool False)] 0)))
       = Inr ()
   \<and> timers (snd (sync (exampleConfig False 100) (run (exampleConfig False 100) [RuntimeNotify [''data.name'']]
        (createBridge (exampleConfig False 100)
           [(''data.name'', Str ''John''), (''data.age'', Num 30), (''state.loading'', Bool False)] 0))))
       = []
   \<and> pendingPaths (snd (sync (exampleConfig False 100) (run (exampleConfig False 100) [RuntimeNotify [''data.name'']]
        (createBridge (exampleConfig False 100)
           [(''data.name'', Str ''John''), (''data.age'', Num 30), (''state.loading'', Bool False)] 0))))
       = [''data.name'']
   \<and> pushed (snd (sync (exampleConfig False 100) (run (exampleConfig False 100) [RuntimeNotify [''data.name'']]
        (createBridge (exampleConfig False 100)
           [(''data.name'', Str ''John''), (''data.age'', Num 30), (''state.loading'', Bool False)] 0))))
       = [(0, [SetData ''data.name'' (Str ''John''), SetData ''data.age'' (Num 30),
               SetState ''state.loading'' (Bool False)])]
   \<and> \<not> isContainer (Str ''idle'')
   \<and> allPathsOf \<lparr>snapshot_data =
          Arr [Some (Num 7), None, None, None, None, None, None, None, None, None, Some (Num 9)]
            [(''tag'', Str ''t'')],
        snapshot_state = Str ''idle''\<rparr>
       = [''data.0'', ''data.10'', ''data.tag'']
   \<and> allPathsOf \<lparr>snapshot_data = Null, snapshot_state = Obj [(''loading'', Bool False)]\<rparr>
       = [''state.loading'']
   \<and> pushToExternal \<lparr>hasSetManyData = False, hasSetManyState = False\<rparr>
        (lookupOwn [(''data.0'', Num 7), (''data.10'', Num 9), (''data.tag'', Str ''t'')])
        [''data.0'', ''data.10'', ''data.tag'']
       = [SetData ''data.0'' (Num 7), SetData ''data.10'' (Num 9), SetData ''data.tag'' (Str ''t'')]
   \<and> (''data.10'', Num 9) \<in> set (concat (map writes
        (pushToExternal \<lparr>hasSetManyData = False, hasSetManyState = False\<rparr>
           (lookupOwn [(''data.0'', Num 7), (''data.10'', Num 9), (''data.tag'', Str ''t'')])
           [''data.0'', ''data.10'', ''data.tag''])))"
proof -
  let ?r = "[(''data.name'', Str ''John''), (''data.age'', Num 30), (''state.loading'', Bool False)]"
  let ?config = "exampleConfig False 100"
  let ?w = "run ?config [RuntimeNotify [''data.name'']] (createBridge ?config ?r 0)"
  let ?arr = "Arr [Some (Num 7), None, None, None, None, None, None, None, None, None, Some (Num 9)]
            [(''tag'', Str ''t'')]"
  let ?snap = "\<lparr>snapshot_data = ?arr, snapshot_state = Str ''idle''\<rparr>"
  let ?snap2 = "\<lparr>snapshot_data = Null, snapshot_state = Obj [(''loading'', Bool False)]\<rparr>"
  let ?act = "\<lparr>hasSetManyData = False, hasSetManyState = False\<rparr>"
  let ?read = "lookupOwn [(''data.0'', Num 7), (''data.10'', Num 9), (''data.tag'', Str ''t'')]"
  have w: "?w = (createBridge ?config ?r 0)\<lparr>pendingPaths := [''data.name''], timers := [(0, 100)],
      nextTimer := 1, syncTimeoutId := Some 0\<rparr>"
    by (simp add: run_def onRuntimeChange_def schedulePush_def setTimeout_def hostDelay_def setAdd_def
        debounceMsOf_def autoSyncOf_def syncModeOf_def exampleConfig_def createBridge_def Let_def)
  have nd: "\<not> isDisposed ?w" and armed: "syncTimeoutId ?w = Some 0" and queue: "timers ?w = [(0, 100)]"
    by (simp_all add: w) (simp_all add: createBridge_def)
  have nc: "\<not> isContainer (Str ''idle'')" "\<not> isContainer Null" by simp_all
  have k0: "indexKey 0 = ''0''" and k10: "indexKey 10 = ''10''"
    by (simp_all add: indexKey_small indexKey_large digit_chars)
  have present: "filter (\<lambda>i.
          [Some (Num 7), None, None, None, None, None, None, None, None, None, Some (Num 9)] ! i \<noteq> None)
          [0..<length [Some (Num 7), None, None, None, None, None, None, None, None, None, Some (Num 9)]]
        = [0, 10]"
    by code_simp
  note inst = sync_pushes_snapshot [where w = ?w and config = ?config and snapshot = ?snap
      and v = "Str ''idle''" and ps = "[]"
      and es = "[Some (Num 7), None, None, None, None, None, None, None, None, None, Some (Num 9)]"
      and named = "[(''tag'', Str ''t'')]" and act = ?act and read = ?read]
  from inst nd have ret: "fst (sync ?config ?w) = Inr ()"
    and tm: "timers (snd (sync ?config ?w)) = filter (\<lambda>(i, due). Some i \<noteq> syncTimeoutId ?w) (timers ?w)"
    and pend: "pendingPaths (snd (sync ?config ?w)) = pendingPaths ?w"
    and push: "pushed (snd (sync ?config ?w)) = pushed ?w @
          [(clock ?w, pushToExternal (actuator ?config) (runtime_get (runtime ?config) (runtimeState ?w))
                       (allPathsOf (runtime_getSnapshot (runtime ?config) (runtimeState ?w))))]"
    by blast+
  from tm have cleared: "timers (snd (sync ?config ?w)) = []"
    by (simp only: armed queue) simp
  from pend have kept: "pendingPaths (snd (sync ?config ?w)) = [''data.name'']"
    by (simp only: w) simp
  from push have pushed: "pushed (snd (sync ?config ?w))
       = [(0, [SetData ''data.name'' (Str ''John''), SetData ''data.age'' (Num 30),
               SetState ''state.loading'' (Bool False)])]"
    by (simp only: w) (simp add: exampleConfig_def flatRuntime_def flatSnapshot_def allPathsOf_def
        pushToExternal_def startsWith_def createBridge_def)
  from inst nc have none: "objectKeys (Str ''idle'') = []" by blast
  from inst have "objectKeys ?arr = map indexKey (filter (\<lambda>i.
          [Some (Num 7), None, None, None, None, None, None, None, None, None, Some (Num 9)] ! i \<noteq> None)
          [0..<length [Some (Num 7), None, None, None, None, None, None, None, None, None, Some (Num 9)]])
        @ map fst [(''tag'', Str ''t'')]"
    by blast
  then have keys: "objectKeys ?arr = [''0'', ''10'', ''tag'']"
    unfolding present by (simp add: k0 k10 del: objectKeys.simps)
  from inst have "allPathsOf ?snap =
       map (\<lambda>k. ''data.'' @ k) (objectKeys (snapshot_data ?snap))
       @ map (\<lambda>k. ''state.'' @ k) (objectKeys (snapshot_state ?snap))"
    by blast
  then have paths: "allPathsOf ?snap = [''data.0'', ''data.10'', ''data.tag'']"
    by (simp add: keys none del: objectKeys.simps)
  from sync_pushes_snapshot [where snapshot = ?snap2 and v = Null and ps = "[(''loading'', Bool False)]"] nc
  have "objectKeys Null = []" and "objectKeys (Obj [(''loading'', Bool False)]) = map fst [(''loading'', Bool False)]"
    and "allPathsOf ?snap2 =
       map (\<lambda>k. ''data.'' @ k) (objectKeys (snapshot_data ?snap2))
       @ map (\<lambda>k. ''state.'' @ k) (objectKeys (snapshot_state ?snap2))"
    by blast+
  then have paths2: "allPathsOf ?snap2 = [''state.loading'']"
    by (simp del: objectKeys.simps)
  have calls: "pushToExternal ?act ?read [''data.0'', ''data.10'', ''data.tag'']
       = [SetData ''data.0'' (Num 7), SetData ''data.10'' (Num 9), SetData ''data.tag'' (Str ''t'')]"
    by (simp add: pushToExternal_def startsWith_def)
  from inst have "\<forall>p \<in> set (allPathsOf ?snap).
        \<exists>c \<in> set (pushToExternal ?act ?read (allPathsOf ?snap)). (p, ?read p) \<in> set (writes c)"
    by blast
  then have "\<exists>c \<in> set (pushToExternal ?act ?read [''data.0'', ''data.10'', ''data.tag'']).
      (''data.10'', ?read ''data.10'') \<in> set (writes c)"
    by (simp only: paths) simp
  then have written: "(''data.10'', Num 9) \<in> set (concat (map writes
        (pushToExternal ?act ?read [''data.0'', ''data.10'', ''data.tag''])))"
    by auto
  from nd armed queue ret cleared kept pushed nc(1) paths paths2 calls written show ?thesis by blast
qed

theorem sync_nested_counterexample:
  "allPathsOf \<lparr>snapshot_data = Obj [(''user'', Obj [(''name'', Str ''John'')])], snapshot_state = Obj []\<rparr>
     = [''data.user'']
   \<and> flattenObject sampleRealm [] (Obj [(''user'', Obj [(''name'', Str ''John'')])]) ''data''
       = Inr ([(''data.user.name'', Str ''John'')], [])
   \<and> pushToExternal \<lparr>hasSetManyData = False, hasSetManyState = False\<rparr>
        (lookupOwn [(''data.user'', Obj [(''name'', Str ''John'')]), (''data.user.name'', Str ''John'')])
        (allPathsOf \<lparr>snapshot_data = Obj [(''user'', Obj [(''name'', Str ''John'')])],
                     snapshot_state = Obj []\<rparr>)
       = [SetData ''data.user'' (Obj [(''name'', Str ''John'')])]
   \<and> pushToExternal \<lparr>hasSetManyData = False, hasSetManyState = False\<rparr>
        (lookupOwn [(''data.user'', Obj [(''name'', Str ''John'')]), (''data.user.name'', Str ''John'')])
        [''data.user.name'']
       = [SetData ''data.user.name'' (Str ''John'')]"
  by (simp add: allPathsOf_def pushToExternal_def startsWith_def Let_def recordSet_def sampleRealm_def)



subsection \<open>Debouncing\<close>




end
